theory Spec2Isabelle
  imports Complex_Main "HOL-Library.Char_ord" "HOL-Library.List_Lexorder" "HOL-Library.Multiset"
begin

section \<open>JavaScript numbers\<close>

text \<open>
  Every number of the program is an IEEE-754 binary64 value. A finite value is kept as the
  rational it denotes; the two zeros are identified (the program never divides by a value
  that can be a zero and never inspects the sign of a zero). Arithmetic computes the exact
  rational result and rounds it to the nearest binary64 value, ties to even, with gradual
  underflow below \<open>2^-1022\<close> and overflow to an infinity from \<open>2^1024 - 2^970\<close> on.
\<close>

datatype jsnum = Fin rat | PInf | NInf | NaN

fun bit_length :: "nat \<Rightarrow> nat" where
  "bit_length n = (if n = 0 then 0 else Suc (bit_length (n div 2)))"

definition ilog2 :: "rat \<Rightarrow> int" where
  "ilog2 x = (if 1 \<le> x then int (bit_length (nat \<lfloor>x\<rfloor>)) - 1
              else - int (bit_length (nat (\<lceil>1 / x\<rceil> - 1))))"

definition pow2 :: "int \<Rightarrow> rat" where
  "pow2 e = (if 0 \<le> e then 2 ^ nat e else 1 / 2 ^ nat (- e))"

definition round_half_even :: "rat \<Rightarrow> int" where
  "round_half_even x =
     (let f = \<lfloor>x\<rfloor>; r = x - of_int f
      in if r < 1 / 2 then f else if 1 / 2 < r then f + 1 else if even f then f else f + 1)"

definition round64 :: "rat \<Rightarrow> jsnum" where
  "round64 x =
     (if x = 0 then Fin 0
      else let e = max (ilog2 \<bar>x\<bar>) (- 1022) - 52;
               r = of_int (round_half_even (\<bar>x\<bar> / pow2 e)) * pow2 e
           in if 2 ^ 1024 \<le> r then (if 0 < x then PInf else NInf)
              else Fin (if 0 < x then r else - r))"

text \<open>\<open>a + b\<close>\<close>

fun jadd :: "jsnum \<Rightarrow> jsnum \<Rightarrow> jsnum" where
  "jadd NaN _ = NaN"
| "jadd _ NaN = NaN"
| "jadd PInf NInf = NaN"
| "jadd NInf PInf = NaN"
| "jadd PInf _ = PInf"
| "jadd _ PInf = PInf"
| "jadd NInf _ = NInf"
| "jadd _ NInf = NInf"
| "jadd (Fin a) (Fin b) = round64 (a + b)"

text \<open>\<open>a / b\<close>; a zero divisor is taken as \<open>+0\<close>.\<close>

fun jdiv :: "jsnum \<Rightarrow> jsnum \<Rightarrow> jsnum" where
  "jdiv NaN _ = NaN"
| "jdiv _ NaN = NaN"
| "jdiv (Fin a) (Fin b) =
     (if b = 0 then (if a = 0 then NaN else if 0 < a then PInf else NInf)
      else round64 (a / b))"
| "jdiv (Fin a) _ = Fin 0"
| "jdiv PInf (Fin b) = (if b < 0 then NInf else PInf)"
| "jdiv NInf (Fin b) = (if b < 0 then PInf else NInf)"
| "jdiv _ _ = NaN"

text \<open>\<open>a < b\<close> and \<open>a <= b\<close>: false as soon as an operand is NaN.\<close>

fun jlt :: "jsnum \<Rightarrow> jsnum \<Rightarrow> bool" where
  "jlt NaN _ = False"
| "jlt _ NaN = False"
| "jlt (Fin a) (Fin b) = (a < b)"
| "jlt _ NInf = False"
| "jlt NInf _ = True"
| "jlt PInf _ = False"
| "jlt _ PInf = True"

fun jle :: "jsnum \<Rightarrow> jsnum \<Rightarrow> bool" where
  "jle NaN _ = False"
| "jle _ NaN = False"
| "jle a b = (a = b \<or> jlt a b)"

text \<open>\<open>Math.min(a, b)\<close> and \<open>Math.max(a, b)\<close>: NaN as soon as an argument is NaN.\<close>

definition Math_min :: "jsnum \<Rightarrow> jsnum \<Rightarrow> jsnum" where
  "Math_min a b = (if a = NaN \<or> b = NaN then NaN else if jlt b a then b else a)"

definition Math_max :: "jsnum \<Rightarrow> jsnum \<Rightarrow> jsnum" where
  "Math_max a b = (if a = NaN \<or> b = NaN then NaN else if jlt a b then b else a)"

text \<open>
  \<open>+x.toFixed(2)\<close>: \<open>toFixed\<close> prints NaN, the infinities and every value of magnitude
  \<open>10^21\<close> or more as \<open>String(x)\<close>, which the unary plus reads back unchanged; below
  that it prints \<open>n / 100\<close> for the integer \<open>n\<close> nearest to \<open>100 * |x|\<close>, the larger
  one on a tie, with the sign of \<open>x\<close>, and the unary plus rounds that decimal to binary64.
\<close>

fun toFixed2 :: "jsnum \<Rightarrow> jsnum" where
  "toFixed2 (Fin q) =
     (if 10 ^ 21 \<le> \<bar>q\<bar> then Fin q
      else let n = \<lfloor>\<bar>q\<bar> * 100 + 1 / 2\<rfloor>
           in round64 ((if q < 0 then - 1 else 1) * of_int n / 100))"
| "toFixed2 x = x"

section \<open>Strings\<close>

text \<open>
  A text is the sequence of its UTF-16 code units, each a natural number; \<open>str\<close> turns
  an ASCII literal into its code units.

  \<open>toLowerCase\<close> follows the Unicode case mapping and is written out in full for the code
  units up to U+017F (Basic Latin, Latin-1 Supplement and Latin Extended-A). It can lengthen
  a text: the capital I with a dot above, U+0130, becomes the two code units of \<open>i\<close> and
  of the combining dot U+0307, and no other character does that. Beyond U+017F only the
  Kelvin sign U+212A has a lowering among the code units below 128, the letter \<open>k\<close>; the
  other code units are left as they are, since their lowerings have their length and stay
  beyond 127. So the lowered text of the model has the length of the real one and the same
  code units below 128 at the same places, and \<open>scoreSentiment\<close> asks no more of it: its
  length, and where the exclamation mark and the lexicon terms occur.
\<close>

type_synonym jsstring = "nat list"

definition str :: "string \<Rightarrow> jsstring" where
  "str s = map of_char s"

definition toLowerCase_unit :: "nat \<Rightarrow> jsstring" where
  "toLowerCase_unit u =
     (if (0x41 \<le> u \<and> u \<le> 0x5A) \<or> (0xC0 \<le> u \<and> u \<le> 0xDE \<and> u \<noteq> 0xD7) then [u + 32]
      else if u = 0x130 then [0x69, 0x307]
      else if u = 0x178 then [0xFF]
      else if u = 0x212A then [0x6B]
      else if ((0x100 \<le> u \<and> u \<le> 0x12F) \<or> (0x132 \<le> u \<and> u \<le> 0x137) \<or>
               (0x14A \<le> u \<and> u \<le> 0x177)) \<and> even u then [u + 1]
      else if ((0x139 \<le> u \<and> u \<le> 0x148) \<or> (0x179 \<le> u \<and> u \<le> 0x17E)) \<and> odd u then [u + 1]
      else [u])"

definition toLowerCase :: "jsstring \<Rightarrow> jsstring" where
  "toLowerCase s = concat (map toLowerCase_unit s)"

fun startsWith :: "jsstring \<Rightarrow> jsstring \<Rightarrow> bool" where
  "startsWith s [] = True"
| "startsWith [] (c # w) = False"
| "startsWith (a # s) (c # w) = (a = c \<and> startsWith s w)"

text \<open>\<open>s.includes(w)\<close>: \<open>w\<close> occurs in \<open>s\<close> as a contiguous block.\<close>

fun includes_str :: "jsstring \<Rightarrow> jsstring \<Rightarrow> bool" where
  "includes_str [] w = (w = [])"
| "includes_str (a # s) w = (startsWith (a # s) w \<or> includes_str s w)"

section \<open>Sentiment scoring\<close>

definition POSITIVE_WORDS :: "jsstring list" where
  "POSITIVE_WORDS =
     map str
       [''happy'', ''joy'', ''great'', ''good'', ''content'', ''excited'', ''calm'',
        ''relaxed'', ''hope'', ''love'', ''grateful'']"

definition NEGATIVE_WORDS :: "jsstring list" where
  "NEGATIVE_WORDS =
     map str
       [''sad'', ''depressed'', ''angry'', ''anxious'', ''stressed'', ''upset'', ''lonely'',
        ''worried'', ''tired'', ''hopeless'']"

text \<open>
  The argument is a string or absent (\<open>None\<close> for \<open>undefined\<close> and \<open>null\<close>); the guard
  \<open>!text\<close> holds of an absent and of an empty text. The counter \<open>score\<close> only takes whole
  values between -10 and 11 and is an \<open>int\<close> until it is divided. The length tested at the
  end is that of the lowered text.
\<close>

definition scoreSentiment :: "jsstring option \<Rightarrow> jsnum" where
  "scoreSentiment text =
     (case text of
        None \<Rightarrow> Fin 0
      | Some t \<Rightarrow>
          if t = [] then Fin 0
          else
            let normalized = toLowerCase t;
                score = foldl (\<lambda>score w. if includes_str normalized w then score + 1 else score)
                          (0 :: int) POSITIVE_WORDS;
                score = foldl (\<lambda>score w. if includes_str normalized w then score - 1 else score)
                          score NEGATIVE_WORDS
            in if 0 < score
               then Math_min (Fin 1) (jdiv (Fin (of_int score)) (Fin (of_nat (length POSITIVE_WORDS))))
               else if score < 0
               then Math_max (Fin (- 1)) (jdiv (Fin (of_int score)) (Fin (of_nat (length NEGATIVE_WORDS))))
               else if includes_str normalized (str ''!'') \<and> length normalized < 50 then Fin (1 / 2)
               else Fin 0)"

text \<open>The hit counts of the specification: the lexicon terms present in the lowered text.\<close>

definition posHits :: "jsstring \<Rightarrow> nat" where
  "posHits t = length (filter (includes_str (toLowerCase t)) POSITIVE_WORDS)"

definition negHits :: "jsstring \<Rightarrow> nat" where
  "negHits t = length (filter (includes_str (toLowerCase t)) NEGATIVE_WORDS)"

section \<open>Entries\<close>

text \<open>
  An entry as the application stores it. The date is only compared with other dates, and
  is a string of characters; the note is a text as \<open>scoreSentiment\<close> reads it. The fields \<open>mood\<close> and \<open>sentiment\<close> may be
  missing from a stored entry (\<open>None\<close> stands for \<open>undefined\<close>); the fields \<open>id\<close> and
  \<open>createdAt\<close> are never read by the functions below and are left out.
\<close>

record entry =
  date :: string
  mood :: "jsnum option"
  note_text :: jsstring
  sentiment :: "jsnum option"

text \<open>The entry built by \<open>handleSubmit\<close> from the form's date, mood and note.\<close>

definition handleSubmit :: "string \<Rightarrow> jsnum \<Rightarrow> jsstring \<Rightarrow> entry" where
  "handleSubmit d m n =
     \<lparr>date = d, mood = Some m, note_text = n, sentiment = Some (scoreSentiment (Some n))\<rparr>"

section \<open>Recommendation engine\<close>

record recommendation =
  r_id :: string
  r_text :: string

text \<open>The dash of two of the messages is written as its three UTF-8 bytes.\<close>

definition r_default :: recommendation where
  "r_default = \<lparr>r_id = ''r_default'',
     r_text = ''Try a short 5-minute breathing exercise to start your day.''\<rparr>"

definition r_walk :: recommendation where
  "r_walk = \<lparr>r_id = ''r_walk'',
     r_text = ''Go for a 10-minute walk outside '' @ [CHR 0xE2, CHR 0x80, CHR 0x94] @
              '' nature helps mood.''\<rparr>"

definition r_ground :: recommendation where
  "r_ground = \<lparr>r_id = ''r_ground'',
     r_text = ''Try a grounding exercise: name 5 things you can see, 4 you can touch, 3 you can hear.''\<rparr>"

definition r_talk :: recommendation where
  "r_talk = \<lparr>r_id = ''r_talk'',
     r_text = ''Consider reaching out to a friend or family for emotional support.''\<rparr>"

definition r_breathe :: recommendation where
  "r_breathe = \<lparr>r_id = ''r_breathe'',
     r_text = ''Try a 3-4-5 breathing cycle for 3 minutes.''\<rparr>"

definition r_walk2 :: recommendation where
  "r_walk2 = \<lparr>r_id = ''r_walk2'',
     r_text = ''Short physical activity (walk/stretch) can improve mood.''\<rparr>"

definition r_keep :: recommendation where
  "r_keep = \<lparr>r_id = ''r_keep'',
     r_text = ''You'' @ [CHR 0x27] @ ''re doing well '' @ [CHR 0xE2, CHR 0x80, CHR 0x94] @
              '' keep your current routines and celebrate small wins.''\<rparr>"

definition r_journal :: recommendation where
  "r_journal = \<lparr>r_id = ''r_journal'',
     r_text = ''Try journaling: write one honest paragraph about what'' @ [CHR 0x27] @
              ''s on your mind.''\<rparr>"

definition r_sleep :: recommendation where
  "r_sleep = \<lparr>r_id = ''r_sleep'',
     r_text = ''Focus on sleep hygiene: limit screens 1 hour before bed.''\<rparr>"

text \<open>\<open>e.mood || 3\<close>: a missing mood, a zero and NaN are falsy.\<close>

definition mood_or_3 :: "entry \<Rightarrow> jsnum" where
  "mood_or_3 e =
     (case mood e of None \<Rightarrow> Fin 3
      | Some m \<Rightarrow> if m = Fin 0 \<or> m = NaN then Fin 3 else m)"

text \<open>\<open>e.sentiment ?? 0\<close>\<close>

definition sentiment_or_0 :: "entry \<Rightarrow> jsnum" where
  "sentiment_or_0 e = (case sentiment e of None \<Rightarrow> Fin 0 | Some s \<Rightarrow> s)"

text \<open>The local constants \<open>avgMood\<close> and \<open>avgSentiment\<close> of \<open>generateRecommendations\<close>.\<close>

definition avgMood :: "entry list \<Rightarrow> jsnum" where
  "avgMood recentEntries =
     (let moods = map mood_or_3 recentEntries
      in jdiv (foldl jadd (Fin 0) moods) (Fin (of_nat (length moods))))"

definition avgSentiment :: "entry list \<Rightarrow> jsnum" where
  "avgSentiment recentEntries =
     (let sentiments = map sentiment_or_0 recentEntries
      in jdiv (foldl jadd (Fin 0) sentiments) (Fin (of_nat (length sentiments))))"

text \<open>The final \<open>out.filter\<close>, with the set \<open>seen\<close> of the texts already let through.\<close>

fun filter_seen :: "string list \<Rightarrow> recommendation list \<Rightarrow> recommendation list" where
  "filter_seen seen [] = []"
| "filter_seen seen (r # rs) =
     (if r_text r \<in> set seen then filter_seen seen rs
      else r # filter_seen (r_text r # seen) rs)"

text \<open>
  The argument is an array of entries or absent. The literals 2.5 and 3.5 are binary64
  values; the literal -0.1 is the binary64 value nearest to \<open>-1/10\<close>.
\<close>

definition generateRecommendations :: "entry list option \<Rightarrow> recommendation list" where
  "generateRecommendations recentEntries =
     (case recentEntries of
        None \<Rightarrow> [r_default, r_walk]
      | Some es \<Rightarrow>
          if length es = 0 then [r_default, r_walk]
          else
            let out = (if jle (avgMood es) (Fin (5 / 2)) then [r_ground, r_talk]
                       else if jle (avgMood es) (Fin (7 / 2)) then [r_breathe, r_walk2]
                       else [r_keep]);
                out = (if jlt (avgSentiment es) (round64 (- 1 / 10))
                       then out @ [r_journal, r_sleep] else out)
            in filter_seen [] out)"

text \<open>
  Whole numbers of magnitude at most \<open>b\<close>, and the whole value of such a number: sums of
  these are computed without rounding as long as they stay below \<open>2^53\<close>.
\<close>

definition whole_within :: "nat \<Rightarrow> jsnum \<Rightarrow> bool" where
  "whole_within b x = (case x of Fin q \<Rightarrow> q = of_int \<lfloor>q\<rfloor> \<and> \<bar>q\<bar> \<le> of_nat b | _ \<Rightarrow> False)"

definition whole_of :: "jsnum \<Rightarrow> int" where
  "whole_of x = (case x of Fin q \<Rightarrow> \<lfloor>q\<rfloor> | _ \<Rightarrow> 0)"

text \<open>
  Numbers between -1 and 1, the rational a finite number denotes, and the mean of the
  sentiments of a list in exact arithmetic, which does not depend on their order.
\<close>

definition in_unit :: "jsnum \<Rightarrow> bool" where
  "in_unit x = (case x of Fin q \<Rightarrow> \<bar>q\<bar> \<le> 1 | _ \<Rightarrow> False)"

definition value_of :: "jsnum \<Rightarrow> rat" where
  "value_of x = (case x of Fin q \<Rightarrow> q | _ \<Rightarrow> 0)"

definition exact_mean_sentiment :: "entry list \<Rightarrow> rat" where
  "exact_mean_sentiment es =
     sum_list (map (\<lambda>e. value_of (sentiment_or_0 e)) es) / of_nat (length es)"

section \<open>Trend aggregation\<close>

record bucket =
  b_date :: string
  moodSum :: jsnum
  b_count :: nat
  sentimentSum :: jsnum

record trend_point =
  tp_date :: string
  tp_mood :: jsnum
  tp_sentiment :: jsnum

text \<open>
  \<open>dataMap\<close> starts as the object literal \<open>{}\<close>: its own properties, in the order of
  their creation, are an association list, and a read \<open>dataMap[d]\<close> of a key that is not
  an own property falls through to \<open>Object.prototype\<close>, whose properties are all truthy.
\<close>

definition Object_prototype_keys :: "string list" where
  "Object_prototype_keys =
     [''constructor'', ''__defineGetter__'', ''__defineSetter__'', ''hasOwnProperty'',
      ''__lookupGetter__'', ''__lookupSetter__'', ''isPrototypeOf'', ''propertyIsEnumerable'',
      ''toString'', ''valueOf'', ''__proto__'', ''toLocaleString'']"

text \<open>
  The bucket \<open>{ date: d, moodSum: 0, count: 0, sentimentSum: 0 }\<close> and the three updates
  of one round; \<open>moodSum += e.mood\<close> with a missing mood adds \<open>undefined\<close> and gives
  NaN. The counter \<open>count\<close> only takes whole values.
\<close>

definition new_bucket :: "string \<Rightarrow> bucket" where
  "new_bucket d = \<lparr>b_date = d, moodSum = Fin 0, b_count = 0, sentimentSum = Fin 0\<rparr>"

definition update_bucket :: "entry \<Rightarrow> bucket \<Rightarrow> bucket" where
  "update_bucket e b =
     b\<lparr>moodSum := (case mood e of None \<Rightarrow> NaN | Some m \<Rightarrow> jadd (moodSum b) m),
       sentimentSum := jadd (sentimentSum b) (sentiment_or_0 e),
       b_count := b_count b + 1\<rparr>"

text \<open>
  One round of the \<open>forEach\<close>. For an inherited key the guard \<open>!dataMap[d]\<close> fails and the
  three updates write to the inherited object, so that no own property appears. Otherwise
  the bucket is created when missing, and updated.
\<close>

definition add_entry :: "(string \<times> bucket) list \<Rightarrow> entry \<Rightarrow> (string \<times> bucket) list" where
  "add_entry dataMap e =
     (let d = date e
      in if d \<in> set Object_prototype_keys then dataMap
         else
           let dataMap = (if map_of dataMap d = None then dataMap @ [(d, new_bucket d)] else dataMap)
           in map (\<lambda>(k, b). if k = d then (k, update_bucket e b) else (k, b)) dataMap)"

text \<open>
  \<open>Array.prototype.sort\<close> with a comparison function, as an insertion sort: an element
  moves behind every element it compares greater than.
\<close>

fun insert_by :: "('a \<Rightarrow> 'a \<Rightarrow> int) \<Rightarrow> 'a \<Rightarrow> 'a list \<Rightarrow> 'a list" where
  "insert_by cmp x [] = [x]"
| "insert_by cmp x (y # ys) = (if 0 < cmp x y then y # insert_by cmp x ys else x # y # ys)"

definition sort_by :: "('a \<Rightarrow> 'a \<Rightarrow> int) \<Rightarrow> 'a list \<Rightarrow> 'a list" where
  "sort_by cmp xs = foldr (insert_by cmp) xs []"

definition compare_date :: "trend_point \<Rightarrow> trend_point \<Rightarrow> int" where
  "compare_date a b = (if tp_date b < tp_date a then 1 else - 1)"

text \<open>The arrow function that turns a bucket into a point of the chart.\<close>

definition to_point :: "bucket \<Rightarrow> trend_point" where
  "to_point d =
     \<lparr>tp_date = b_date d,
      tp_mood = toFixed2 (jdiv (moodSum d) (Fin (of_nat (b_count d)))),
      tp_sentiment = toFixed2 (jdiv (sentimentSum d) (Fin (of_nat (b_count d))))\<rparr>"

text \<open>
  The array \<open>data\<close> that \<open>TrendCharts\<close> computes from its entries and then draws.
  \<open>Object.values\<close> lists the buckets in the order of their creation (keys that are array
  indices first); the sort that follows makes the order of this list immaterial.
\<close>

definition TrendCharts_data :: "entry list \<Rightarrow> trend_point list" where
  "TrendCharts_data entries =
     (let dataMap = foldl add_entry [] entries
      in sort_by compare_date (map to_point (map snd dataMap)))"

text \<open>
  The entries of one date, and the sums the specification speaks of: the moods and the
  sentiments of a group added from left to right, a missing sentiment counting as 0.
\<close>

definition date_group :: "entry list \<Rightarrow> string \<Rightarrow> entry list" where
  "date_group es d = filter (\<lambda>e. date e = d) es"

definition sum_mood :: "entry list \<Rightarrow> jsnum" where
  "sum_mood g = foldl (\<lambda>s e. case mood e of None \<Rightarrow> NaN | Some m \<Rightarrow> jadd s m) (Fin 0) g"

definition sum_sentiment :: "entry list \<Rightarrow> jsnum" where
  "sum_sentiment g = foldl (\<lambda>s e. jadd s (sentiment_or_0 e)) (Fin 0) g"

text \<open>
  What the loop leaves in \<open>dataMap\<close>: the keys in the order of their first entry, and
  under each key the sums and the number of the entries of that date.
\<close>

definition own_keys :: "entry list \<Rightarrow> string list" where
  "own_keys es =
     foldl (\<lambda>ks e. if date e \<in> set Object_prototype_keys \<or> date e \<in> set ks then ks
                     else ks @ [date e]) [] es"

definition bucket_of :: "entry list \<Rightarrow> string \<Rightarrow> bucket" where
  "bucket_of es d =
     \<lparr>b_date = d, moodSum = sum_mood (date_group es d), b_count = length (date_group es d),
      sentimentSum = sum_sentiment (date_group es d)\<rparr>"

text \<open>
  Rounding to a whole number as the specification has it: the integer nearest to \<open>x\<close>,
  and of two equally near ones the one further from 0.
\<close>

definition round_half_away :: "rat \<Rightarrow> int" where
  "round_half_away x = (if x < 0 then - \<lfloor>- x + 1 / 2\<rfloor> else \<lfloor>x + 1 / 2\<rfloor>)"

text \<open>A finite number: neither NaN nor an infinity.\<close>

definition isFinite :: "jsnum \<Rightarrow> bool" where
  "isFinite x = (case x of Fin q \<Rightarrow> True | _ \<Rightarrow> False)"

section \<open>Rounding to binary64\<close>

declare bit_length.simps [simp del]

lemma bit_length_0 [simp]: "bit_length 0 = 0"
  by (simp add: bit_length.simps)

lemma bit_length_pos: "0 < n \<Longrightarrow> bit_length n = Suc (bit_length (n div 2))"
  by (subst bit_length.simps) simp

lemma bit_length_bounds:
  "0 < n \<Longrightarrow> 2 ^ (bit_length n - 1) \<le> n \<and> n < 2 ^ bit_length n"
proof (induction n rule: bit_length.induct)
  case (1 n)
  show ?case
  proof (cases "n div 2 = 0")
    case True
    with 1(2) have "n = 1" by presburger
    then show ?thesis by (simp add: bit_length_pos)
  next
    case False
    with 1 have IH: "2 ^ (bit_length (n div 2) - 1) \<le> n div 2" "n div 2 < 2 ^ bit_length (n div 2)"
      by simp_all
    have pos: "0 < bit_length (n div 2)"
      using False by (simp add: bit_length_pos)
    have bl: "bit_length n = Suc (bit_length (n div 2))"
      using 1(2) by (simp add: bit_length_pos)
    from pos obtain b where b: "bit_length (n div 2) = Suc b"
      by (cases "bit_length (n div 2)") simp_all
    define p :: nat where "p = 2 ^ b"
    from IH b have "p \<le> n div 2" "n div 2 < 2 * p"
      by (simp_all add: p_def)
    moreover have "2 * (n div 2) \<le> n" "n < 2 * (n div 2) + 2"
      by presburger+
    ultimately have "2 * p \<le> n" "n < 4 * p"
      by linarith+
    then show ?thesis by (simp add: bl b p_def)
  qed
qed

lemma pow2_pos [simp]: "0 < pow2 e"
  by (simp add: pow2_def)

lemma pow2_nonneg [simp]: "0 \<le> pow2 e"
  by (simp add: less_imp_le)

lemma pow2_nonneg_eq: "0 \<le> e \<Longrightarrow> pow2 e = 2 ^ nat e"
  by (simp add: pow2_def)

lemma pow2_add: "pow2 (a + b) = pow2 a * pow2 b"
proof -
  have eq: "pow2 e = 2 powi e" for e
    by (simp add: pow2_def power_int_def field_simps)
  show ?thesis by (simp add: eq power_int_add)
qed

lemma pow2_0 [simp]: "pow2 0 = 1"
  by (simp add: pow2_def)

lemma pow2_1 [simp]: "pow2 1 = 2"
  by (simp add: pow2_def)

lemma pow2_mono: "a \<le> b \<Longrightarrow> pow2 a \<le> pow2 b"
proof -
  assume "a \<le> b"
  then have eq: "pow2 b = pow2 a * pow2 (b - a)" and nn: "0 \<le> b - a"
    using pow2_add [of a "b - a"] by simp_all
  from nn have "1 \<le> pow2 (b - a)"
    by (simp add: pow2_def)
  then have "pow2 a * 1 \<le> pow2 a * pow2 (b - a)"
    by (intro mult_left_mono) (simp_all add: less_imp_le)
  with eq show ?thesis by simp
qed

lemma pow2_less_imp: "pow2 a < pow2 b \<Longrightarrow> a < b"
  using pow2_mono [of b a] by (cases "a < b") simp_all

lemma pow_le_of_nat: "2 ^ L \<le> (n :: nat) \<Longrightarrow> (2 :: rat) ^ L \<le> of_nat n"
proof -
  assume "2 ^ L \<le> n"
  then have "(of_nat (2 ^ L) :: rat) \<le> of_nat n" by (rule of_nat_mono)
  then show ?thesis by simp
qed

lemma of_nat_less_pow: "(n :: nat) < 2 ^ L \<Longrightarrow> (of_nat n :: rat) + 1 \<le> 2 ^ L"
proof -
  assume "n < 2 ^ L"
  then have "Suc n \<le> 2 ^ L" by simp
  then have "(of_nat (Suc n) :: rat) \<le> of_nat (2 ^ L)" by (rule of_nat_mono)
  then show ?thesis by simp
qed

lemma ilog2_bounds:
  assumes "0 < x"
  shows "pow2 (ilog2 x) \<le> x \<and> x < pow2 (ilog2 x + 1)"
proof (cases "1 \<le> x")
  case True
  define n where "n = nat \<lfloor>x\<rfloor>"
  from True have n: "0 < n" "of_nat n \<le> x" "x < of_nat n + 1"
    by (simp_all add: n_def) linarith+
  define L where "L = bit_length n - 1"
  from bit_length_bounds [OF n(1)] have b: "2 ^ L \<le> n" "n < 2 ^ bit_length n"
    by (simp_all add: L_def)
  have blpos: "0 < bit_length n"
    using n(1) by (simp add: bit_length_pos)
  then have bl: "bit_length n = Suc L" by (simp add: L_def)
  have il: "ilog2 x = int L"
    using True bl by (simp add: ilog2_def n_def [symmetric])
  from pow_le_of_nat [OF b(1)] n(2) have "2 ^ L \<le> x" by linarith
  then have lo: "pow2 (int L) \<le> x"
    by (simp add: pow2_def)
  from of_nat_less_pow [OF b(2)] n(3) have "x < 2 ^ bit_length n" by linarith
  then have hi: "x < pow2 (int L + 1)"
    by (simp add: pow2_def nat_add_distrib bl)
  from lo hi il show ?thesis by simp
next
  case False
  define N where "N = \<lceil>1 / x\<rceil>"
  from False assms have y: "1 < 1 / x" by simp
  then have N2: "2 \<le> N" unfolding N_def by linarith
  have Nub: "1 / x \<le> of_int N" and Nlb: "of_int N - 1 < 1 / x"
    unfolding N_def by linarith+
  define n where "n = nat (N - 1)"
  from N2 have n: "0 < n" "int n = N - 1" by (simp_all add: n_def)
  define k where "k = bit_length n"
  from bit_length_bounds [OF n(1)] have b: "2 ^ (k - 1) \<le> n" "n < 2 ^ k"
    by (simp_all add: k_def)
  have kpos: "0 < k"
    using n(1) by (simp add: k_def bit_length_pos)
  have il: "ilog2 x = - int k"
    using False by (simp add: ilog2_def N_def [symmetric] n_def [symmetric] k_def)
  have nN: "(of_nat n :: rat) = of_int N - 1"
    using n(2) by (metis of_int_of_nat_eq of_int_diff of_int_1)
  from of_nat_less_pow [OF b(2)] nN Nub have "1 / x \<le> 2 ^ k" by linarith
  with assms have lo: "1 / 2 ^ k \<le> x"
    by (simp add: field_simps)
  from pow_le_of_nat [OF b(1)] nN Nlb have "2 ^ (k - 1) < 1 / x" by linarith
  with assms have hi: "x < 1 / 2 ^ (k - 1)"
    by (simp add: field_simps)
  have p1: "pow2 (- int k) = 1 / 2 ^ k"
    using kpos by (simp add: pow2_def)
  have p2: "pow2 (- int k + 1) = 1 / 2 ^ (k - 1)"
  proof (cases "k = 1")
    case True
    then show ?thesis by (simp add: pow2_def)
  next
    case False
    with kpos have "\<not> 0 \<le> - int k + 1" "nat (- (- int k + 1)) = k - 1" by simp_all
    then show ?thesis by (simp add: pow2_def)
  qed
  from lo hi il p1 p2 show ?thesis by simp
qed

lemma ilog2_unique:
  assumes "0 < x" "pow2 L \<le> x" "x < pow2 (L + 1)"
  shows "ilog2 x = L"
proof -
  from ilog2_bounds [OF assms(1)] have "pow2 (ilog2 x) \<le> x" "x < pow2 (ilog2 x + 1)"
    by simp_all
  with assms have a: "pow2 L < pow2 (ilog2 x + 1)" and b: "pow2 (ilog2 x) < pow2 (L + 1)"
    by simp_all
  from pow2_less_imp [OF a] pow2_less_imp [OF b] show ?thesis by simp
qed

lemma round_half_even_unique: "\<bar>x - of_int m\<bar> < 1 / 2 \<Longrightarrow> round_half_even x = m"
proof -
  assume h: "\<bar>x - of_int m\<bar> < 1 / 2"
  have fl: "of_int \<lfloor>x\<rfloor> \<le> x" "x < of_int \<lfloor>x\<rfloor> + 1" by linarith+
  consider "\<lfloor>x\<rfloor> = m" | "\<lfloor>x\<rfloor> = m - 1"
    using h fl by (cases "\<lfloor>x\<rfloor> \<le> m - 2"; cases "m + 1 \<le> \<lfloor>x\<rfloor>") (linarith+)
  then show ?thesis
  proof cases
    case 1
    with h have "x - of_int \<lfloor>x\<rfloor> < 1 / 2" by linarith
    with 1 show ?thesis by (simp only: round_half_even_def Let_def if_True)
  next
    case 2
    then have "of_int \<lfloor>x\<rfloor> = (of_int m :: rat) - 1" by simp
    with h have "\<not> x - of_int \<lfloor>x\<rfloor> < 1 / 2" "1 / 2 < x - of_int \<lfloor>x\<rfloor>" by linarith+
    with 2 show ?thesis by (simp add: round_half_even_def Let_def)
  qed
qed

lemma round_half_even_tie:
  assumes "\<bar>x - of_int m\<bar> = 1 / 2" "even m"
  shows "round_half_even x = m"
proof -
  from assms(1) have "x = of_int m + 1 / 2 \<or> x = of_int m - 1 / 2"
    by linarith
  then consider "x = of_int m + 1 / 2" | "x = of_int m - 1 / 2"
    by blast
  then show ?thesis
  proof cases
    case 1
    then have "\<lfloor>x\<rfloor> = m" by linarith
    with 1 assms(2) show ?thesis by (simp add: round_half_even_def Let_def)
  next
    case 2
    then have "\<lfloor>x\<rfloor> = m - 1" by linarith
    with 2 assms(2) show ?thesis by (simp add: round_half_even_def Let_def)
  qed
qed

lemma round_half_even_nearest:
  "\<bar>x - of_int m\<bar> < 1 / 2 \<or> \<bar>x - of_int m\<bar> = 1 / 2 \<and> even m \<Longrightarrow> round_half_even x = m"
  using round_half_even_unique round_half_even_tie by blast

lemma round_half_even_of_int [simp]: "round_half_even (of_int m) = m"
  by (rule round_half_even_unique) simp

lemma round64_cert:
  assumes "x \<noteq> 0" "pow2 L \<le> \<bar>x\<bar>" "\<bar>x\<bar> < pow2 (L + 1)"
    and "e = max L (- 1022) - 52"
    and "\<bar>\<bar>x\<bar> / pow2 e - of_int m\<bar> < 1 / 2 \<or> \<bar>\<bar>x\<bar> / pow2 e - of_int m\<bar> = 1 / 2 \<and> even m"
    and "of_int m * pow2 e < 2 ^ 1024"
  shows "round64 x = Fin (if 0 < x then of_int m * pow2 e else - (of_int m * pow2 e))"
proof -
  from assms(1) have "0 < \<bar>x\<bar>" by simp
  from ilog2_unique [OF this assms(2,3)] have "ilog2 \<bar>x\<bar> = L" .
  with assms(4) have e: "max (ilog2 \<bar>x\<bar>) (- 1022) - 52 = e" by simp
  from round_half_even_nearest [OF assms(5)] have m: "round_half_even (\<bar>x\<bar> / pow2 e) = m" .
  from assms(6) have "\<not> 2 ^ 1024 \<le> of_int m * pow2 e" by simp
  with assms(1) show ?thesis
    by (simp only: round64_def e m Let_def if_False)
qed

lemma round_half_even_ge: "of_int a \<le> x \<Longrightarrow> a \<le> round_half_even x"
proof -
  assume "of_int a \<le> x"
  then have "a \<le> \<lfloor>x\<rfloor>" by linarith
  moreover have "\<lfloor>x\<rfloor> \<le> round_half_even x"
    by (simp add: round_half_even_def Let_def)
  ultimately show ?thesis by simp
qed

lemma round_half_even_le: "x \<le> of_int b \<Longrightarrow> round_half_even x \<le> b"
proof (cases "x = of_int b")
  case True
  then show ?thesis by simp
next
  case False
  assume "x \<le> of_int b"
  with False have "x < of_int b" by simp
  then have "\<lfloor>x\<rfloor> + 1 \<le> b" by linarith
  moreover have "round_half_even x \<le> \<lfloor>x\<rfloor> + 1"
    by (simp add: round_half_even_def Let_def)
  ultimately show ?thesis by simp
qed

lemma pow2_neg_of_int: "e \<le> 0 \<Longrightarrow> 1 / pow2 e = of_int (2 ^ nat (- e))"
  by (cases "e = 0") (simp_all add: pow2_def)

lemma round64_unit:
  assumes "x \<noteq> 0" "\<bar>x\<bar> \<le> 1"
  shows "\<exists>r. round64 x = Fin r \<and> \<bar>r\<bar> \<le> 1 \<and> (0 < x \<longrightarrow> 0 \<le> r) \<and> (x < 0 \<longrightarrow> r \<le> 0)"
proof -
  define e where "e = max (ilog2 \<bar>x\<bar>) (- 1022) - 52"
  define m where "m = round_half_even (\<bar>x\<bar> / pow2 e)"
  define r where "r = of_int m * pow2 e"
  from assms(1) have pos: "0 < \<bar>x\<bar>" by simp
  from ilog2_bounds [OF pos] assms(2) have "pow2 (ilog2 \<bar>x\<bar>) < pow2 1" by simp
  then have "ilog2 \<bar>x\<bar> < 1" by (rule pow2_less_imp)
  then have e0: "e \<le> 0" by (simp add: e_def)
  define N :: int where "N = 2 ^ nat (- e)"
  have N: "1 / pow2 e = of_int N"
    unfolding N_def using e0 by (rule pow2_neg_of_int)
  have "\<bar>x\<bar> / pow2 e = \<bar>x\<bar> * (1 / pow2 e)" by simp
  also have "\<dots> \<le> 1 * (1 / pow2 e)"
    using assms(2) by (intro mult_right_mono) simp_all
  finally have yN: "\<bar>x\<bar> / pow2 e \<le> of_int N" by (simp add: N)
  have "of_int 0 \<le> \<bar>x\<bar> / pow2 e" by simp
  then have m0: "0 \<le> m" unfolding m_def by (rule round_half_even_ge)
  from yN have mN: "m \<le> N" unfolding m_def by (rule round_half_even_le)
  from m0 have r0: "0 \<le> r" by (simp add: r_def)
  from mN have "of_int m * pow2 e \<le> of_int N * pow2 e"
    by (intro mult_right_mono) simp_all
  also have "of_int N * pow2 e = 1"
    using N pow2_pos [of e] by (simp add: field_simps)
  finally have r1: "r \<le> 1" by (simp add: r_def)
  then have "\<not> 2 ^ 1024 \<le> r" by simp
  with assms(1) have "round64 x = Fin (if 0 < x then r else - r)"
    by (simp only: round64_def e_def [symmetric] m_def [symmetric] r_def [symmetric] Let_def if_False)
  with r0 r1 show ?thesis by auto
qed

lemma round64_of_int:
  assumes "\<bar>n\<bar> < 2 ^ 53"
  shows "round64 (of_int n) = Fin (of_int n)"
proof (cases "n = 0")
  case True
  then show ?thesis by (simp add: round64_def)
next
  case False
  define x :: rat where "x = of_int n"
  define L where "L = ilog2 \<bar>x\<bar>"
  from False have x0: "x \<noteq> 0" and pos: "0 < \<bar>x\<bar>" and x1: "1 \<le> \<bar>x\<bar>"
    by (simp_all add: x_def flip: of_int_abs)
  from ilog2_bounds [OF pos] have b: "pow2 L \<le> \<bar>x\<bar>" "\<bar>x\<bar> < pow2 (L + 1)"
    by (simp_all add: L_def)
  from b(2) x1 have "pow2 0 < pow2 (L + 1)" by simp
  then have L0: "0 \<le> L" using pow2_less_imp [of 0 "L + 1"] by simp
  from assms have "\<bar>x\<bar> < 2 ^ 53"
    unfolding x_def by (metis of_int_abs of_int_less_iff of_int_numeral of_int_power)
  with b(1) have "pow2 L < pow2 53" by (simp add: pow2_def)
  then have L52: "L \<le> 52" using pow2_less_imp [of L 53] by simp
  define e where "e = max L (- 1022) - 52"
  from L0 L52 have e: "e = L - 52" "e \<le> 0" by (simp_all add: e_def)
  define m where "m = \<bar>n\<bar> * 2 ^ nat (- e)"
  have "\<bar>x\<bar> / pow2 e = \<bar>x\<bar> * (1 / pow2 e)" by simp
  also have "\<dots> = of_int m"
    by (simp only: pow2_neg_of_int [OF e(2)] m_def x_def of_int_mult flip: of_int_abs)
  finally have y: "\<bar>x\<bar> / pow2 e = of_int m" .
  then have mx: "of_int m * pow2 e = \<bar>x\<bar>"
    using pow2_pos [of e] by (simp add: field_simps)
  have c5: "\<bar>\<bar>x\<bar> / pow2 e - of_int m\<bar> < 1 / 2 \<or> \<bar>\<bar>x\<bar> / pow2 e - of_int m\<bar> = 1 / 2 \<and> even m"
    by (simp add: y)
  from \<open>\<bar>x\<bar> < 2 ^ 53\<close> have c6: "of_int m * pow2 e < 2 ^ 1024"
    unfolding mx by (rule less_trans) simp
  have c4: "e = max L (- 1022) - 52" by (simp add: e_def)
  from round64_cert [OF x0 b c4 c5 c6] have "round64 x = Fin (if 0 < x then \<bar>x\<bar> else - \<bar>x\<bar>)"
    by (simp only: mx)
  then show ?thesis by (simp add: x_def [symmetric] abs_if)
qed

section \<open>Properties of the sentiment score\<close>

lemma foldl_count_up:
  "foldl (\<lambda>score w. if P w then score + 1 else score) (s :: int) ws = s + int (length (filter P ws))"
  by (induction ws arbitrary: s) simp_all

lemma foldl_count_down:
  "foldl (\<lambda>score w. if P w then score - 1 else score) (s :: int) ws = s - int (length (filter P ws))"
  by (induction ws arbitrary: s) simp_all

lemma length_POSITIVE_WORDS: "length POSITIVE_WORDS = 11"
  by (simp add: POSITIVE_WORDS_def)

lemma length_NEGATIVE_WORDS: "length NEGATIVE_WORDS = 10"
  by (simp add: NEGATIVE_WORDS_def)

lemma posHits_le: "posHits t \<le> 11"
  unfolding posHits_def using length_filter_le [of _ POSITIVE_WORDS]
  by (simp add: length_POSITIVE_WORDS)

lemma negHits_le: "negHits t \<le> 10"
  unfolding negHits_def using length_filter_le [of _ NEGATIVE_WORDS]
  by (simp add: length_NEGATIVE_WORDS)

lemma scoreSentiment_Some:
  "t \<noteq> [] \<Longrightarrow> scoreSentiment (Some t) =
     (let score = int (posHits t) - int (negHits t)
      in if 0 < score then Math_min (Fin 1) (jdiv (Fin (of_int score)) (Fin 11))
         else if score < 0 then Math_max (Fin (- 1)) (jdiv (Fin (of_int score)) (Fin 10))
         else if includes_str (toLowerCase t) (str ''!'') \<and> length (toLowerCase t) < 50 then Fin (1 / 2)
         else Fin 0)"
  by (simp add: scoreSentiment_def foldl_count_up foldl_count_down posHits_def negHits_def
      length_POSITIVE_WORDS length_NEGATIVE_WORDS Let_def)

lemma posHits_Nil: "posHits [] = 0"
  by (simp add: posHits_def POSITIVE_WORDS_def str_def toLowerCase_def)

lemma negHits_Nil: "negHits [] = 0"
  by (simp add: negHits_def NEGATIVE_WORDS_def str_def toLowerCase_def)

lemma score_pos_range:
  assumes "0 < k" "k \<le> 11"
  shows "jle (Fin (- 1)) (Math_min (Fin 1) (jdiv (Fin (of_int k)) (Fin 11))) \<and>
         jle (Math_min (Fin 1) (jdiv (Fin (of_int k)) (Fin 11))) (Fin 1)"
proof -
  from assms have "(of_int k :: rat) / 11 \<noteq> 0" "\<bar>(of_int k :: rat) / 11\<bar> \<le> 1" "0 < (of_int k :: rat) / 11"
    by simp_all
  with round64_unit [of "of_int k / 11"] obtain r
    where "round64 (of_int k / 11) = Fin r" "0 \<le> r" "\<bar>r\<bar> \<le> 1" by blast
  then show ?thesis by (simp add: Math_min_def)
qed

lemma score_neg_range:
  assumes "k < 0" "- 10 \<le> k"
  shows "jle (Fin (- 1)) (Math_max (Fin (- 1)) (jdiv (Fin (of_int k)) (Fin 10))) \<and>
         jle (Math_max (Fin (- 1)) (jdiv (Fin (of_int k)) (Fin 10))) (Fin 1)"
proof -
  from assms have "(of_int k :: rat) / 10 \<noteq> 0" "\<bar>(of_int k :: rat) / 10\<bar> \<le> 1" "(of_int k :: rat) / 10 < 0"
    by simp_all
  with round64_unit [of "of_int k / 10"] obtain r
    where "round64 (of_int k / 10) = Fin r" "r \<le> 0" "\<bar>r\<bar> \<le> 1" by blast
  then show ?thesis by (simp add: Math_max_def)
qed

lemma scoreSentiment_range_Some:
  "jle (Fin (- 1)) (scoreSentiment (Some t)) \<and> jle (scoreSentiment (Some t)) (Fin 1)"
proof (cases "t = []")
  case True
  then show ?thesis by (simp add: scoreSentiment_def)
next
  case False
  define k where "k = int (posHits t) - int (negHits t)"
  have bounds: "- 10 \<le> k" "k \<le> 11"
    using posHits_le [of t] negHits_le [of t] by (simp_all add: k_def)
  have eq: "scoreSentiment (Some t) =
     (if 0 < k then Math_min (Fin 1) (jdiv (Fin (of_int k)) (Fin 11))
      else if k < 0 then Math_max (Fin (- 1)) (jdiv (Fin (of_int k)) (Fin 10))
      else if includes_str (toLowerCase t) (str ''!'') \<and> length (toLowerCase t) < 50 then Fin (1 / 2)
      else Fin 0)"
    unfolding k_def scoreSentiment_Some [OF False] Let_def ..
  consider "0 < k" | "k < 0" | "k = 0" by linarith
  then show ?thesis
  proof cases
    case 1
    with bounds score_pos_range [of k] show ?thesis
      by (simp only: eq if_True)
  next
    case 2
    moreover from 2 have "\<not> 0 < k" by simp
    ultimately show ?thesis using bounds score_neg_range [of k]
      by (simp only: eq if_True if_False)
  next
    case 3
    then show ?thesis
      by (simp add: eq)
  qed
qed

text \<open>
  Claim C4. \<open>scoreSentiment\<close> is total on its domain (a text or no text): every result
  lies between -1 and 1, and an absent or empty text scores exactly 0.
\<close>

theorem scoreSentiment_total_range:
  "jle (Fin (- 1)) (scoreSentiment text) \<and> jle (scoreSentiment text) (Fin 1) \<and>
   scoreSentiment None = Fin 0 \<and> scoreSentiment (Some []) = Fin 0"
proof (cases "text")
  case None
  then show ?thesis by (simp add: scoreSentiment_def)
next
  case (Some t)
  with scoreSentiment_range_Some [of t] show ?thesis by (simp add: scoreSentiment_def)
qed

lemma str_eq_Nil [simp]: "str s = [] \<longleftrightarrow> s = []"
  by (simp add: str_def)

lemma str_bang [simp]: "str ''!'' = [33]"
  by (simp add: str_def)

lemma bang_toLowerCase_unit: "33 \<in> set (toLowerCase_unit u) \<longleftrightarrow> u = 33"
  by (auto simp: toLowerCase_unit_def)

lemma length_toLowerCase_unit: "length (toLowerCase_unit u) = (if u = 304 then 2 else 1)"
  by (simp add: toLowerCase_unit_def)

lemma includes_str_single: "includes_str s [c] \<longleftrightarrow> c \<in> set s"
  by (induction s) auto

lemma length_toLowerCase: "length (toLowerCase s) = length s + count_list s 304"
  by (induction s) (simp_all add: toLowerCase_def length_toLowerCase_unit)

lemma toLowerCase_Cons: "toLowerCase (u # s) = toLowerCase_unit u @ toLowerCase s"
  by (simp add: toLowerCase_def)

lemma toLowerCase_append: "toLowerCase (s @ t) = toLowerCase s @ toLowerCase t"
  by (simp add: toLowerCase_def)

lemma toLowerCase_Nil [simp]: "toLowerCase [] = []"
  by (simp add: toLowerCase_def)

lemma toLowerCase_replicate_a: "toLowerCase (replicate n 0x61) = replicate n 0x61"
  by (induction n) (simp_all add: toLowerCase_Cons toLowerCase_unit_def)

lemmas hits_eval = posHits_def negHits_def POSITIVE_WORDS_def NEGATIVE_WORDS_def str_def
  toLowerCase_Cons toLowerCase_unit_def

lemma startsWith_subset: "startsWith s w \<Longrightarrow> set w \<subseteq> set s"
  by (induction s w rule: startsWith.induct) auto

lemma includes_str_subset: "includes_str s w \<Longrightarrow> set w \<subseteq> set s"
proof (induction s)
  case Nil
  then show ?case by simp
next
  case (Cons a s)
  from Cons.prems have "startsWith (a # s) w \<or> includes_str s w" by simp
  then show ?case
  proof
    assume "startsWith (a # s) w"
    then show ?thesis by (rule startsWith_subset)
  next
    assume "includes_str s w"
    with Cons.IH show ?thesis by auto
  qed
qed

lemma bang_toLowerCase: "33 \<in> set (toLowerCase s) \<longleftrightarrow> 33 \<in> set s"
  by (induction s) (simp_all add: toLowerCase_def bang_toLowerCase_unit eq_commute [of 33])

lemma scoreSentiment_raw_zero:
  "posHits t = negHits t \<Longrightarrow>
   scoreSentiment (Some t) =
     (if 33 \<in> set t \<and> length (toLowerCase t) < 50 then Fin (1 / 2) else Fin 0)"
proof (cases "t = []")
  case True
  then show ?thesis by (simp add: scoreSentiment_def)
next
  case False
  assume "posHits t = negHits t"
  with False show ?thesis
    by (simp add: scoreSentiment_Some includes_str_single bang_toLowerCase)
qed

text \<open>
  Claim C5, amended. When the raw score is 0, that is when as many positive as negative
  terms are present (none at all, or equally many of each), the score is 0.5 if the text
  contains an exclamation mark and the lowered text has fewer than 50 code units, and 0
  otherwise. The length of the lowered text is the length of the text plus the number of
  its code units U+0130, each of which \<open>toLowerCase\<close> turns into two.
\<close>

theorem scoreSentiment_fallback:
  "posHits t = negHits t \<Longrightarrow>
   scoreSentiment (Some t) =
     (if 33 \<in> set t \<and> length (toLowerCase t) < 50 then Fin (1 / 2) else Fin 0) \<and>
   length (toLowerCase t) = length t + count_list t 0x130"
  by (simp add: scoreSentiment_raw_zero length_toLowerCase)

text \<open>
  The text \<open>Hopeless!\<close> has one positive hit (\<open>hope\<close>) and one negative hit
  (\<open>hopeless\<close>), hence raw score 0 with both counts nonzero.
\<close>

theorem scoreSentiment_fallback_witness:
  "posHits (str ''Hopeless!'') = negHits (str ''Hopeless!'') \<and>
   scoreSentiment (Some (str ''Hopeless!'')) = Fin (1 / 2)"
proof -
  have h: "posHits (str ''Hopeless!'') = negHits (str ''Hopeless!'')"
    by (simp add: hits_eval)
  from scoreSentiment_fallback [OF h] h show ?thesis by (simp add: str_def)
qed

text \<open>
  Claim C5 as stated fails: the text of a capital I with a dot above (U+0130), 47 letters
  \<open>a\<close> and an exclamation mark has no lexicon term, contains an exclamation mark and has
  49 code units, fewer than 50; its lowered text has 50, and the score is 0, not 0.5.
\<close>

theorem scoreSentiment_fallback_counterexample:
  "posHits (0x130 # replicate 47 0x61 @ [0x21]) = negHits (0x130 # replicate 47 0x61 @ [0x21]) \<and>
   0x21 \<in> set (0x130 # replicate 47 0x61 @ [0x21]) \<and>
   length (0x130 # replicate 47 0x61 @ [0x21]) < 50 \<and>
   toLowerCase (0x130 # replicate 47 0x61 @ [0x21]) = 0x69 # 0x307 # replicate 47 0x61 @ [0x21] \<and>
   length (toLowerCase (0x130 # replicate 47 0x61 @ [0x21])) = 50 \<and>
   scoreSentiment (Some (0x130 # replicate 47 0x61 @ [0x21])) = Fin 0 \<and>
   Fin 0 \<noteq> Fin (1 / 2)"
proof -
  let ?t = "0x130 # replicate 47 0x61 @ [0x21] :: jsstring"
  have low: "toLowerCase ?t = 0x69 # 0x307 # replicate 47 0x61 @ [0x21]"
    by (simp add: toLowerCase_Cons toLowerCase_append toLowerCase_replicate_a toLowerCase_unit_def)
  have none: "\<not> includes_str (toLowerCase ?t) w" if "w \<in> set POSITIVE_WORDS \<union> set NEGATIVE_WORDS" for w
  proof
    assume "includes_str (toLowerCase ?t) w"
    then have "set w \<subseteq> {0x69, 0x307, 0x61, 0x21}"
      unfolding low by (rule includes_str_subset [THEN subset_trans]) auto
    with that show False
      by (auto simp: POSITIVE_WORDS_def NEGATIVE_WORDS_def str_def)
  qed
  then have h0: "posHits ?t = 0" "negHits ?t = 0"
    by (simp_all add: posHits_def negHits_def filter_empty_conv)
  then have h: "posHits ?t = negHits ?t" by simp
  have l: "length (toLowerCase ?t) = 50"
    by (simp add: length_toLowerCase)
  from scoreSentiment_raw_zero [OF h] have "scoreSentiment (Some ?t) = Fin 0"
    by (simp only: l) simp
  with h low l show ?thesis by simp
qed

text \<open>
  Claim C1, amended. The code divides the raw score, the signed difference
  \<open>posHits - negHits\<close>, by the size of the winning side's lexicon: a positive raw score
  gives \<open>min(1, (posHits - negHits) / 11)\<close> and a negative one
  \<open>max(-1, (posHits - negHits) / 10)\<close>.
\<close>

theorem scoreSentiment_normalization:
  "(0 < int (posHits t) - int (negHits t) \<longrightarrow>
      scoreSentiment (Some t) =
        Math_min (Fin 1) (jdiv (Fin (of_int (int (posHits t) - int (negHits t)))) (Fin 11))) \<and>
   (int (posHits t) - int (negHits t) < 0 \<longrightarrow>
      scoreSentiment (Some t) =
        Math_max (Fin (- 1)) (jdiv (Fin (of_int (int (posHits t) - int (negHits t)))) (Fin 10)))"
proof (cases "t = []")
  case True
  then show ?thesis by (simp add: posHits_Nil negHits_Nil)
next
  case False
  then show ?thesis by (simp add: scoreSentiment_Some Let_def)
qed

section \<open>Values of the rounding function\<close>

lemma round64_0 [simp]: "round64 0 = Fin 0"
  by (simp add: round64_def)

lemma round64_1 [simp]: "round64 1 = Fin 1"
  using round64_of_int [of 1] by simp

lemma round64_numeral:
  "(numeral k :: int) < 2 ^ 53 \<Longrightarrow> round64 (numeral k) = Fin (numeral k)"
  using round64_of_int [of "numeral k"] by simp

lemma round64_neg_numeral:
  "(numeral k :: int) < 2 ^ 53 \<Longrightarrow> round64 (- numeral k) = Fin (- numeral k)"
  using round64_of_int [of "- numeral k"] by simp

lemma round64_neg_1 [simp]: "round64 (- 1) = Fin (- 1)"
  using round64_of_int [of "- 1"] by simp

text \<open>
  The values of \<open>round64\<close> that the examples below need, each checked against
  \<open>round64_cert\<close> with its exponents and its rounded significand.
\<close>

lemma round64_v1: "round64 (1 / 11) = Fin (3275345183542179 / 36028797018963968)"
  using round64_cert [of "1 / 11" "- 4" "- 56" 6550690367084358]
  by (simp add: pow2_def)

lemma round64_v2: "round64 (2 / 11) = Fin (3275345183542179 / 18014398509481984)"
  using round64_cert [of "2 / 11" "- 3" "- 55" 6550690367084358]
  by (simp add: pow2_def)

lemma round64_v3: "round64 (- (1 / 10)) = Fin (- (3602879701896397 / 36028797018963968))"
  using round64_cert [of "- (1 / 10)" "- 4" "- 56" 7205759403792794]
  by (simp add: pow2_def)

lemma round64_v4: "round64 (- (1 / 5)) = Fin (- (3602879701896397 / 18014398509481984))"
  using round64_cert [of "- (1 / 5)" "- 3" "- 55" 7205759403792794]
  by (simp add: pow2_def)

lemma round64_v5: "round64 (9 / 2) = Fin (9 / 2)"
  using round64_cert [of "9 / 2" "2" "- 50" 5066549580791808]
  by (simp add: pow2_def)

lemma round64_v6: "round64 (1 / 2) = Fin (1 / 2)"
  using round64_cert [of "1 / 2" "- 1" "- 53" 4503599627370496]
  by (simp add: pow2_def)

lemma round64_v7: "round64 (- (1 / 2)) = Fin (- (1 / 2))"
  using round64_cert [of "- (1 / 2)" "- 1" "- 53" 4503599627370496]
  by (simp add: pow2_def)

lemma round64_v8: "round64 (- (3 / 10)) = Fin (- (5404319552844595 / 18014398509481984))"
  using round64_cert [of "- (3 / 10)" "- 2" "- 54" 5404319552844595]
  by (simp add: pow2_def)

lemma round64_v9: "round64 (- (14411518807585587 / 18014398509481984)) = Fin (- (3602879701896397 / 4503599627370496))"
  using round64_cert [of "- (14411518807585587 / 18014398509481984)" "- 1" "- 53" 7205759403792794]
  by (simp add: pow2_def)

lemma round64_v10: "round64 (- (1351079888211149 / 4503599627370496)) = Fin (- (1351079888211149 / 4503599627370496))"
  using round64_cert [of "- (1351079888211149 / 4503599627370496)" "- 2" "- 54" 5404319552844596]
  by (simp add: pow2_def)

lemma round64_v11: "round64 (- (1351079888211149 / 13510798882111488)) = Fin (- (7205759403792795 / 72057594037927936))"
  using round64_cert [of "- (1351079888211149 / 13510798882111488)" "- 4" "- 56" 7205759403792795]
  by (simp add: pow2_def)

lemma round64_v12: "round64 (- (5404319552844595 / 18014398509481984)) = Fin (- (5404319552844595 / 18014398509481984))"
  using round64_cert [of "- (5404319552844595 / 18014398509481984)" "- 2" "- 54" 5404319552844595]
  by (simp add: pow2_def)

lemma round64_v13: "round64 (- (5404319552844595 / 54043195528445952)) = Fin (- (7205759403792793 / 72057594037927936))"
  using round64_cert [of "- (5404319552844595 / 54043195528445952)" "- 4" "- 56" 7205759403792793]
  by (simp add: pow2_def)

lemma round64_v14: "round64 (- (3602879701896397 / 4503599627370496)) = Fin (- (3602879701896397 / 4503599627370496))"
  using round64_cert [of "- (3602879701896397 / 4503599627370496)" "- 1" "- 53" 7205759403792794]
  by (simp add: pow2_def)

lemma round64_v15: "round64 (- (3602879701896397 / 13510798882111488)) = Fin (- (4803839602528529 / 18014398509481984))"
  using round64_cert [of "- (3602879701896397 / 13510798882111488)" "- 2" "- 54" 4803839602528529]
  by (simp add: pow2_def)

lemma round64_v16: "round64 (5 / 3) = Fin (7505999378950827 / 4503599627370496)"
  using round64_cert [of "5 / 3" "0" "- 52" 7505999378950827]
  by (simp add: pow2_def)

lemma round64_v17: "round64 (167 / 100) = Fin (940126422213591 / 562949953421312)"
  using round64_cert [of "167 / 100" "0" "- 52" 7521011377708728]
  by (simp add: pow2_def)

lemmas round64_values =
  round64_numeral round64_neg_numeral
  round64_v1 round64_v2 round64_v3 round64_v4 round64_v5 round64_v6
  round64_v7 round64_v8 round64_v9 round64_v10 round64_v11 round64_v12
  round64_v13 round64_v14 round64_v15 round64_v16 round64_v17

text \<open>
  Claim C1 as stated fails: \<open>happy joy sad\<close> has two positive hits and one negative hit;
  the code returns the binary64 value of 1/11, not \<open>min(1, posHits / 11)\<close>, which would be
  that of 2/11.
\<close>

theorem scoreSentiment_hit_count_counterexample:
  "0 < int (posHits (str ''happy joy sad'')) - int (negHits (str ''happy joy sad'')) \<and>
   posHits (str ''happy joy sad'') = 2 \<and>
   scoreSentiment (Some (str ''happy joy sad'')) = round64 (1 / 11) \<and>
   scoreSentiment (Some (str ''happy joy sad'')) \<noteq>
     Math_min (Fin 1) (jdiv (Fin (of_nat (posHits (str ''happy joy sad'')))) (Fin (of_nat (length POSITIVE_WORDS))))"
proof -
  have p: "posHits (str ''happy joy sad'') = 2" by (simp add: hits_eval)
  have n: "negHits (str ''happy joy sad'') = 1" by (simp add: hits_eval)
  show ?thesis
    by (simp add: scoreSentiment_Some p n length_POSITIVE_WORDS Math_min_def round64_values)
qed

theorem scoreSentiment_normalization_witness:
  "0 < int (posHits (str ''happy joy sad'')) - int (negHits (str ''happy joy sad'')) \<and>
   scoreSentiment (Some (str ''happy joy sad'')) = Math_min (Fin 1) (jdiv (Fin 1) (Fin 11)) \<and>
   int (posHits (str ''sad angry happy'')) - int (negHits (str ''sad angry happy'')) < 0 \<and>
   scoreSentiment (Some (str ''sad angry happy'')) = Math_max (Fin (- 1)) (jdiv (Fin (- 1)) (Fin 10))"
proof -
  have p: "posHits (str ''happy joy sad'') = 2" "negHits (str ''happy joy sad'') = 1"
    "posHits (str ''sad angry happy'') = 1" "negHits (str ''sad angry happy'') = 2"
    by (simp_all add: hits_eval)
  from scoreSentiment_normalization [of "str ''happy joy sad''"]
    scoreSentiment_normalization [of "str ''sad angry happy''"]
  show ?thesis by (simp add: p)
qed

section \<open>Properties of the recommendation engine\<close>

lemma r_texts_distinct:
  "distinct (map r_text [r_default, r_walk, r_ground, r_talk, r_breathe, r_walk2, r_keep, r_journal, r_sleep])"
  by (simp add: r_default_def r_walk_def r_ground_def r_talk_def r_breathe_def r_walk2_def
      r_keep_def r_journal_def r_sleep_def)

lemma filter_seen_distinct:
  "distinct (map r_text rs) \<Longrightarrow> set (map r_text rs) \<inter> set seen = {} \<Longrightarrow> filter_seen seen rs = rs"
  by (induction rs arbitrary: seen) auto

lemma filter_seen_keep: "filter_seen [] [r_keep] = [r_keep]"
  by simp

lemma filter_seen_keep_overlay: "filter_seen [] [r_keep, r_journal, r_sleep] = [r_keep, r_journal, r_sleep]"
  using r_texts_distinct by (intro filter_seen_distinct) simp_all

lemma filter_seen_ground: "filter_seen [] [r_ground, r_talk] = [r_ground, r_talk]"
  using r_texts_distinct by (intro filter_seen_distinct) simp_all

lemma filter_seen_ground_overlay:
  "filter_seen [] [r_ground, r_talk, r_journal, r_sleep] = [r_ground, r_talk, r_journal, r_sleep]"
  using r_texts_distinct by (intro filter_seen_distinct) simp_all

lemma filter_seen_breathe: "filter_seen [] [r_breathe, r_walk2] = [r_breathe, r_walk2]"
  using r_texts_distinct by (intro filter_seen_distinct) simp_all

lemma filter_seen_breathe_overlay:
  "filter_seen [] [r_breathe, r_walk2, r_journal, r_sleep] = [r_breathe, r_walk2, r_journal, r_sleep]"
  using r_texts_distinct by (intro filter_seen_distinct) simp_all

lemmas filter_seen_values = filter_seen_keep filter_seen_keep_overlay filter_seen_ground
  filter_seen_ground_overlay filter_seen_breathe filter_seen_breathe_overlay





text \<open>
  Claim C2 as stated fails: a mood of 7 lies outside \<open>[1, 5]\<close> and is averaged as 7, not
  as 3, and the result is the tier of a high mood instead of the middle tier that a mood
  of 3 gives.
\<close>

theorem recommend_out_of_range_mood_counterexample:
  "avgMood [\<lparr>date = ''2024-01-01'', mood = Some (Fin 7), note_text = [], sentiment = Some (Fin 0)\<rparr>] = Fin 7 \<and>
   avgMood [\<lparr>date = ''2024-01-01'', mood = Some (Fin 3), note_text = [], sentiment = Some (Fin 0)\<rparr>] = Fin 3 \<and>
   generateRecommendations
     (Some [\<lparr>date = ''2024-01-01'', mood = Some (Fin 7), note_text = [], sentiment = Some (Fin 0)\<rparr>])
     = [r_keep] \<and>
   generateRecommendations
     (Some [\<lparr>date = ''2024-01-01'', mood = Some (Fin 3), note_text = [], sentiment = Some (Fin 0)\<rparr>])
     = [r_breathe, r_walk2] \<and>
   [r_keep] \<noteq> [r_breathe, r_walk2]"
  by (simp add: generateRecommendations_def avgMood_def avgSentiment_def mood_or_3_def
      sentiment_or_0_def round64_values filter_seen_values del: filter_seen.simps)

lemma filter_seen_Cons_Nil: "filter_seen [] (r # rs) \<noteq> []"
  by simp

lemma generateRecommendations_nonempty: "generateRecommendations r \<noteq> []"
  by (cases r) (simp_all add: generateRecommendations_def Let_def)

lemma mood_or_3_default:
  "mood_or_3 (if mood e \<in> {None, Some (Fin 0), Some NaN} then e\<lparr>mood := Some (Fin 3)\<rparr> else e) = mood_or_3 e"
  by (auto simp: mood_or_3_def split: option.splits)

lemma sentiment_or_0_default:
  "sentiment_or_0 (if mood e \<in> {None, Some (Fin 0), Some NaN} then e\<lparr>mood := Some (Fin 3)\<rparr> else e)
     = sentiment_or_0 e"
  by (simp add: sentiment_or_0_def)

lemma generateRecommendations_Some:
  "es \<noteq> [] \<Longrightarrow>
   generateRecommendations (Some es) =
     (if jle (avgMood es) (Fin (5 / 2)) then [r_ground, r_talk]
      else if jle (avgMood es) (Fin (7 / 2)) then [r_breathe, r_walk2]
      else [r_keep]) @
     (if jlt (avgSentiment es) (round64 (- 1 / 10)) then [r_journal, r_sleep] else [])"
  by (simp add: generateRecommendations_def filter_seen_values del: filter_seen.simps)

text \<open>
  Claim C2, amended. \<open>generateRecommendations\<close> always returns a non-empty list. For a
  non-empty input the tier rules apply to \<open>avgMood\<close>: at most 2.5 gives the grounding and
  the support item, otherwise at most 3.5 gives the breathing and the activity item,
  otherwise the keep-routine item, each followed by the journaling and sleep items when
  \<open>avgSentiment\<close> is below -0.1. \<open>avgMood\<close> is the sum, divided by the number of
  entries, of 3 for every mood that is missing, 0 or NaN and of the mood itself, inside
  \<open>[1, 5]\<close> or not, for every other entry; writing 3 into the entries with such a mood
  changes neither \<open>avgMood\<close> nor the result.
\<close>

theorem recommend_falsy_mood_default:
  "generateRecommendations r \<noteq> [] \<and>
   (es \<noteq> [] \<longrightarrow>
      generateRecommendations (Some es) =
        (if jle (avgMood es) (Fin (5 / 2)) then [r_ground, r_talk]
         else if jle (avgMood es) (Fin (7 / 2)) then [r_breathe, r_walk2]
         else [r_keep]) @
        (if jlt (avgSentiment es) (round64 (- 1 / 10)) then [r_journal, r_sleep] else [])) \<and>
   avgMood es =
     jdiv (foldl jadd (Fin 0)
            (map (\<lambda>e. case mood e of None \<Rightarrow> Fin 3
                       | Some m \<Rightarrow> if m = Fin 0 \<or> m = NaN then Fin 3 else m) es))
       (Fin (of_nat (length es))) \<and>
   avgMood (map (\<lambda>e. if mood e \<in> {None, Some (Fin 0), Some NaN} then e\<lparr>mood := Some (Fin 3)\<rparr> else e) es)
     = avgMood es \<and>
   generateRecommendations
     (Some (map (\<lambda>e. if mood e \<in> {None, Some (Fin 0), Some NaN} then e\<lparr>mood := Some (Fin 3)\<rparr> else e) es))
     = generateRecommendations (Some es)"
proof -
  let ?f = "\<lambda>e. if mood e \<in> {None, Some (Fin 0), Some NaN} then e\<lparr>mood := Some (Fin 3)\<rparr> else e"
  have m: "map mood_or_3 (map ?f es) = map mood_or_3 es"
    by (simp only: map_map comp_def mood_or_3_default)
  have s: "map sentiment_or_0 (map ?f es) = map sentiment_or_0 es"
    by (simp only: map_map comp_def sentiment_or_0_default)
  have am: "avgMood (map ?f es) = avgMood es"
    by (simp only: avgMood_def m)
  have as: "avgSentiment (map ?f es) = avgSentiment es"
    by (simp only: avgSentiment_def s)
  have g: "generateRecommendations (Some (map ?f es)) = generateRecommendations (Some es)"
    by (simp only: generateRecommendations_def am as option.case length_map)
  have a: "avgMood es =
     jdiv (foldl jadd (Fin 0)
            (map (\<lambda>e. case mood e of None \<Rightarrow> Fin 3
                       | Some m \<Rightarrow> if m = Fin 0 \<or> m = NaN then Fin 3 else m) es))
       (Fin (of_nat (length es)))"
    by (simp add: avgMood_def mood_or_3_def [abs_def])
  from g a am generateRecommendations_nonempty generateRecommendations_Some show ?thesis
    by blast
qed

text \<open>
  A missing mood, a mood of 0 and a mood of 6: the moods averaged are 3, 3 and 6, the
  average is 4 and the keep-routine tier applies.
\<close>

theorem recommend_falsy_mood_default_witness:
  "[\<lparr>date = ''2024-01-03'', mood = None, note_text = [], sentiment = None\<rparr>,
    \<lparr>date = ''2024-01-02'', mood = Some (Fin 0), note_text = [], sentiment = None\<rparr>,
    \<lparr>date = ''2024-01-01'', mood = Some (Fin 6), note_text = [], sentiment = None\<rparr>] \<noteq> [] \<and>
   avgMood
     [\<lparr>date = ''2024-01-03'', mood = None, note_text = [], sentiment = None\<rparr>,
      \<lparr>date = ''2024-01-02'', mood = Some (Fin 0), note_text = [], sentiment = None\<rparr>,
      \<lparr>date = ''2024-01-01'', mood = Some (Fin 6), note_text = [], sentiment = None\<rparr>] = Fin 4 \<and>
   generateRecommendations
     (Some [\<lparr>date = ''2024-01-03'', mood = None, note_text = [], sentiment = None\<rparr>,
            \<lparr>date = ''2024-01-02'', mood = Some (Fin 0), note_text = [], sentiment = None\<rparr>,
            \<lparr>date = ''2024-01-01'', mood = Some (Fin 6), note_text = [], sentiment = None\<rparr>])
     = [r_keep]"
  (is "?es \<noteq> [] \<and> _")
proof -
  note t = recommend_falsy_mood_default [of "Some ?es" ?es]
  have ne: "?es \<noteq> []" by simp
  from t have "avgMood ?es =
     jdiv (foldl jadd (Fin 0)
            (map (\<lambda>e. case mood e of None \<Rightarrow> Fin 3
                       | Some m \<Rightarrow> if m = Fin 0 \<or> m = NaN then Fin 3 else m) ?es))
       (Fin (of_nat (length ?es)))"
    by blast
  then have a: "avgMood ?es = Fin 4" by (simp add: round64_values)
  have s: "avgSentiment ?es = Fin 0"
    by (simp add: avgSentiment_def sentiment_or_0_def round64_values)
  from t ne have "generateRecommendations (Some ?es) =
        (if jle (avgMood ?es) (Fin (5 / 2)) then [r_ground, r_talk]
         else if jle (avgMood ?es) (Fin (7 / 2)) then [r_breathe, r_walk2]
         else [r_keep]) @
        (if jlt (avgSentiment ?es) (round64 (- 1 / 10)) then [r_journal, r_sleep] else [])"
    by blast
  then have "generateRecommendations (Some ?es) = [r_keep]"
    by (simp add: a s round64_values)
  with ne a show ?thesis by blast
qed

lemma sentiment_empty: "scoreSentiment (Some []) = Fin 0"
  by (simp add: scoreSentiment_def)

lemma sentiment_sad5: "scoreSentiment (Some (str ''sad angry upset lonely tired'')) = Fin (- (1 / 2))"
proof -
  have "posHits (str ''sad angry upset lonely tired'') = 0" "negHits (str ''sad angry upset lonely tired'') = 5"
    by (simp_all add: hits_eval)
  then show ?thesis
    by (simp add: scoreSentiment_Some Math_max_def round64_values)
qed

lemma sentiment_sad3:
  "scoreSentiment (Some (str ''sad angry upset'')) = Fin (- (5404319552844595 / 18014398509481984))"
proof -
  have "posHits (str ''sad angry upset'') = 0" "negHits (str ''sad angry upset'') = 3"
    by (simp_all add: hits_eval)
  then show ?thesis
    by (simp add: scoreSentiment_Some Math_max_def round64_values)
qed

lemma sentiment_wow: "scoreSentiment (Some (str ''wow!'')) = Fin (1 / 2)"
proof -
  have "posHits (str ''wow!'') = negHits (str ''wow!'')" by (simp add: hits_eval)
  from scoreSentiment_raw_zero [OF this] show ?thesis
    by (simp add: length_toLowerCase str_def)
qed

text \<open>
  Claim C10 as stated fails, on entries that \<open>handleSubmit\<close> builds: the three sentiments
  are -0.5, -0.3 and 0.5. Added in this order the binary64 sum is -0.30000000000000004 and
  the average lies below -0.1; with the last two exchanged the sum is -0.3 and the
  average lies above -0.1. The first order gets the sentiment overlay, the second does not.
\<close>

theorem recommend_permutation_counterexample:
  "mset [handleSubmit ''2024-01-01'' (Fin 3) (str ''sad angry upset lonely tired''),
         handleSubmit ''2024-01-01'' (Fin 3) (str ''sad angry upset''),
         handleSubmit ''2024-01-01'' (Fin 3) (str ''wow!'')]
   = mset [handleSubmit ''2024-01-01'' (Fin 3) (str ''sad angry upset lonely tired''),
           handleSubmit ''2024-01-01'' (Fin 3) (str ''wow!''),
           handleSubmit ''2024-01-01'' (Fin 3) (str ''sad angry upset'')] \<and>
   generateRecommendations
     (Some [handleSubmit ''2024-01-01'' (Fin 3) (str ''sad angry upset lonely tired''),
            handleSubmit ''2024-01-01'' (Fin 3) (str ''sad angry upset''),
            handleSubmit ''2024-01-01'' (Fin 3) (str ''wow!'')])
     = [r_breathe, r_walk2, r_journal, r_sleep] \<and>
   generateRecommendations
     (Some [handleSubmit ''2024-01-01'' (Fin 3) (str ''sad angry upset lonely tired''),
            handleSubmit ''2024-01-01'' (Fin 3) (str ''wow!''),
            handleSubmit ''2024-01-01'' (Fin 3) (str ''sad angry upset'')])
     = [r_breathe, r_walk2] \<and>
   [r_breathe, r_walk2, r_journal, r_sleep] \<noteq> [r_breathe, r_walk2]"
  by (simp add: generateRecommendations_def avgMood_def avgSentiment_def mood_or_3_def
      sentiment_or_0_def handleSubmit_def sentiment_sad5 sentiment_sad3 sentiment_wow
      round64_values filter_seen_values add.commute del: filter_seen.simps)

section \<open>The rounding error of sums\<close>

lemma pow2_neq_0 [simp]: "pow2 e \<noteq> 0"
  by (simp add: pow2_def)

lemma round_half_even_error: "\<bar>of_int (round_half_even y) - y\<bar> \<le> 1 / 2"
proof -
  have fl: "of_int \<lfloor>y\<rfloor> \<le> y" "y < of_int \<lfloor>y\<rfloor> + 1" by linarith+
  consider "y - of_int \<lfloor>y\<rfloor> < 1 / 2" | "1 / 2 < y - of_int \<lfloor>y\<rfloor>" | "y - of_int \<lfloor>y\<rfloor> = 1 / 2"
    by linarith
  then show ?thesis
  proof cases
    case 1
    then have "round_half_even y = \<lfloor>y\<rfloor>" by (simp add: round_half_even_def Let_def)
    with 1 fl show ?thesis by simp
  next
    case 2
    then have "round_half_even y = \<lfloor>y\<rfloor> + 1" by (simp add: round_half_even_def Let_def)
    with 2 fl show ?thesis by simp
  next
    case 3
    then have "round_half_even y = \<lfloor>y\<rfloor> \<or> round_half_even y = \<lfloor>y\<rfloor> + 1"
      by (simp add: round_half_even_def Let_def)
    with 3 show ?thesis by auto
  qed
qed

lemma round64_error:
  assumes "\<bar>x\<bar> \<le> 2 ^ 1000"
  shows "\<exists>r. round64 x = Fin r \<and> \<bar>r - x\<bar> \<le> \<bar>x\<bar> / 2 ^ 53 + 1 / 2 ^ 1075"
proof (cases "x = 0")
  case True
  then show ?thesis by (simp add: round64_def)
next
  case False
  define L where "L = ilog2 \<bar>x\<bar>"
  define e where "e = max L (- 1022) - 52"
  define m where "m = round_half_even (\<bar>x\<bar> / pow2 e)"
  define r where "r = of_int m * pow2 e"
  from False have pos: "0 < \<bar>x\<bar>" by simp
  from ilog2_bounds [OF pos] have lo: "pow2 L \<le> \<bar>x\<bar>" by (simp add: L_def)
  have pe: "pow2 e / 2 \<le> \<bar>x\<bar> / 2 ^ 53 + 1 / 2 ^ 1075"
  proof (cases "- 1022 \<le> L")
    case True
    then have "e = L + (- 52)" by (simp add: e_def)
    then have "pow2 e = pow2 L * pow2 (- 52)" by (simp only: pow2_add)
    also have "\<dots> \<le> \<bar>x\<bar> * pow2 (- 52)"
      using lo by (intro mult_right_mono) simp_all
    finally have "pow2 e / 2 \<le> \<bar>x\<bar> * pow2 (- 52) / 2" by simp
    also have "\<dots> = \<bar>x\<bar> / 2 ^ 53" by (simp add: pow2_def)
    finally show ?thesis by simp
  next
    case False
    then have "e = - 1074" by (simp add: e_def)
    then have "pow2 e / 2 = 1 / 2 ^ 1075" by (simp add: pow2_def)
    then show ?thesis by simp
  qed
  have "\<bar>r - \<bar>x\<bar>\<bar> = \<bar>of_int m - \<bar>x\<bar> / pow2 e\<bar> * pow2 e"
  proof -
    have "r - \<bar>x\<bar> = (of_int m - \<bar>x\<bar> / pow2 e) * pow2 e"
      by (simp add: r_def field_simps)
    then show ?thesis by (simp add: abs_mult)
  qed
  also have "\<dots> \<le> 1 / 2 * pow2 e"
    unfolding m_def by (intro mult_right_mono round_half_even_error) simp
  finally have near: "\<bar>r - \<bar>x\<bar>\<bar> \<le> \<bar>x\<bar> / 2 ^ 53 + 1 / 2 ^ 1075"
    using pe by simp
  have "\<bar>x\<bar> / 2 ^ 53 \<le> 2 ^ 1000" "(1 :: rat) / 2 ^ 1075 \<le> 2 ^ 1000"
    using assms by (simp_all add: field_simps)
  with near assms have "r \<le> 3 * 2 ^ 1000" by linarith
  then have "\<not> 2 ^ 1024 \<le> r" by simp
  with \<open>x \<noteq> 0\<close> have "round64 x = Fin (if 0 < x then r else - r)"
    by (simp only: round64_def L_def [symmetric] e_def [symmetric] m_def [symmetric]
        r_def [symmetric] Let_def if_False)
  moreover have "\<bar>(if 0 < x then r else - r) - x\<bar> = \<bar>r - \<bar>x\<bar>\<bar>"
  proof (cases "0 < x")
    case True
    then show ?thesis by simp
  next
    case False
    then have "- r - x = - (r - \<bar>x\<bar>)" by simp
    with False show ?thesis by (simp only: if_False abs_minus_cancel)
  qed
  with near have "\<bar>(if 0 < x then r else - r) - x\<bar> \<le> \<bar>x\<bar> / 2 ^ 53 + 1 / 2 ^ 1075"
    by simp
  ultimately show ?thesis by blast
qed

lemma in_unitD:
  assumes "in_unit x"
  shows "x = Fin (value_of x)" "\<bar>value_of x\<bar> \<le> 1"
  using assms by (cases x; simp add: in_unit_def value_of_def)+

lemma sum_unit_bound:
  "\<forall>x\<in>set xs. in_unit x \<Longrightarrow> \<bar>sum_list (map value_of xs)\<bar> \<le> of_nat (length xs)"
proof (induction xs)
  case Nil
  then show ?case by simp
next
  case (Cons x xs)
  from Cons.prems have "\<bar>value_of x\<bar> \<le> 1" by (simp add: in_unitD)
  moreover from Cons have "\<bar>sum_list (map value_of xs)\<bar> \<le> of_nat (length xs)" by simp
  ultimately show ?case by simp
qed

lemma foldl_jadd_error:
  fixes N :: nat and d E a A :: rat
  assumes "\<forall>x\<in>set xs. in_unit x"
    and "\<bar>a - A\<bar> \<le> E" "0 \<le> E"
    and "\<bar>A\<bar> + of_nat (length xs) \<le> of_nat N"
    and "(of_nat N + 2) / 2 ^ 53 \<le> d"
    and "E + of_nat (length xs) * d \<le> 1"
    and "of_nat N \<le> (2 :: rat) ^ 999"
  shows "\<exists>s. foldl jadd (Fin a) xs = Fin s \<and>
             \<bar>s - (A + sum_list (map value_of xs))\<bar> \<le> E + of_nat (length xs) * d"
  using assms
proof (induction xs arbitrary: a A E)
  case Nil
  then show ?case by simp
next
  case (Cons x xs)
  define q where "q = value_of x"
  from Cons.prems(1) have x: "x = Fin q" and q: "\<bar>q\<bar> \<le> 1"
    by (simp_all add: in_unitD q_def)
  have d0: "0 \<le> d"
  proof -
    have "(0 :: rat) \<le> (of_nat N + 2) / 2 ^ 53" by simp
    with Cons.prems(5) show ?thesis by linarith
  qed
  then have nd: "0 \<le> of_nat (length xs) * d" by simp
  from Cons.prems(6) have tot: "E + of_nat (length xs) * d + d \<le> 1"
    by (simp add: algebra_simps)
  with nd d0 have E1: "E \<le> 1" by linarith
  from Cons.prems(4) have AN: "\<bar>A\<bar> + of_nat (length xs) + 1 \<le> of_nat N" by simp
  then have A1: "\<bar>A\<bar> + 1 \<le> of_nat N"
  proof -
    have "(0 :: rat) \<le> of_nat (length xs)" by simp
    with AN show ?thesis by linarith
  qed
  define z where "z = a + q"
  from Cons.prems(2) q A1 E1 have zN: "\<bar>z\<bar> \<le> of_nat N + 1" unfolding z_def by linarith
  with Cons.prems(7) have "\<bar>z\<bar> \<le> 2 ^ 999 + 1" by linarith
  also have "\<dots> \<le> (2 :: rat) ^ 1000" by simp
  finally have "\<bar>z\<bar> \<le> 2 ^ 1000" .
  from round64_error [OF this] obtain s' where s': "round64 z = Fin s'"
    and err: "\<bar>s' - z\<bar> \<le> \<bar>z\<bar> / 2 ^ 53 + 1 / 2 ^ 1075" by blast
  have "\<bar>z\<bar> / 2 ^ 53 \<le> (of_nat N + 1) / 2 ^ 53"
    using zN by (simp add: divide_right_mono)
  moreover have "(1 :: rat) / 2 ^ 1075 \<le> 1 / 2 ^ 53" by simp
  ultimately have "\<bar>z\<bar> / 2 ^ 53 + 1 / 2 ^ 1075 \<le> (of_nat N + 2) / 2 ^ 53"
    by (simp add: add_divide_distrib)
  with err Cons.prems(5) have errd: "\<bar>s' - z\<bar> \<le> d" by linarith
  have step: "jadd (Fin a) x = Fin s'" by (simp add: x s' [unfolded z_def])
  from errd Cons.prems(2) have p2: "\<bar>s' - (A + q)\<bar> \<le> E + d" unfolding z_def by linarith
  from Cons.prems(3) d0 have p3: "0 \<le> E + d" by simp
  from AN q have p4: "\<bar>A + q\<bar> + of_nat (length xs) \<le> of_nat N" by linarith
  from tot have p6: "E + d + of_nat (length xs) * d \<le> 1" by simp
  from Cons.prems(1) have p1: "\<forall>x\<in>set xs. in_unit x" by simp
  from Cons.IH [OF p1 p2 p3 p4 Cons.prems(5) p6 Cons.prems(7)]
  obtain s where "foldl jadd (Fin s') xs = Fin s"
    and "\<bar>s - (A + q + sum_list (map value_of xs))\<bar> \<le> E + d + of_nat (length xs) * d"
    by blast
  with step show ?case by (simp add: q_def algebra_simps)
qed

lemma avgSentiment_error:
  assumes "\<forall>e\<in>set es. in_unit (sentiment_or_0 e)" "es \<noteq> []" "length es < 2 ^ 26"
  shows "\<exists>v. avgSentiment es = Fin v \<and>
             \<bar>v - exact_mean_sentiment es\<bar> \<le> (of_nat (length es) + 5) / 2 ^ 53"
proof -
  define xs where "xs = map sentiment_or_0 es"
  define n where "n = length es"
  define d :: rat where "d = (of_nat n + 2) / 2 ^ 53"
  define S where "S = sum_list (map value_of xs)"
  from assms(2) have n0: "0 < n" by (simp add: n_def)
  then have n1: "(1 :: rat) \<le> of_nat n" by simp
  have len: "length xs = n" by (simp add: xs_def n_def)
  from assms(1) have unit: "\<forall>x\<in>set xs. in_unit x" by (simp add: xs_def)
  from assms(3) have "n \<le> 2 ^ 26" "n + 2 \<le> 2 ^ 27" by (simp_all add: n_def)
  then have "n * (n + 2) \<le> 2 ^ 26 * 2 ^ 27" by (rule mult_mono) simp_all
  then have "(of_nat (n * (n + 2)) :: rat) \<le> of_nat (2 ^ 26 * 2 ^ 27)" by (rule of_nat_mono)
  then have nn: "(of_nat n :: rat) * (of_nat n + 2) \<le> 2 ^ 53" by (simp add: algebra_simps)
  have nd: "of_nat n * d \<le> 1"
    using nn by (simp add: d_def field_simps)
  from \<open>n \<le> 2 ^ 26\<close> have "(of_nat n :: rat) \<le> of_nat (2 ^ 26)" by (rule of_nat_mono)
  then have big: "(of_nat n :: rat) \<le> 2 ^ 999" by (rule order_trans) simp
  have "\<exists>s. foldl jadd (Fin 0) xs = Fin s \<and>
      \<bar>s - (0 + sum_list (map value_of xs))\<bar> \<le> 0 + of_nat (length xs) * d"
    by (rule foldl_jadd_error [where N = n]) (use unit nd big in \<open>simp_all add: len d_def\<close>)
  then obtain s where s: "foldl jadd (Fin 0) xs = Fin s" and serr: "\<bar>s - S\<bar> \<le> of_nat n * d"
    by (auto simp: S_def len)
  from sum_unit_bound [OF unit] have Sn: "\<bar>S\<bar> \<le> of_nat n" by (simp add: S_def len)
  have d0: "0 \<le> d" by (simp add: d_def)
  have d1: "d \<le> 1"
  proof -
    from n1 d0 have "d \<le> of_nat n * d" by (simp add: mult_le_cancel_right1)
    with nd show ?thesis by linarith
  qed
  have quot: "\<bar>s / of_nat n - S / of_nat n\<bar> \<le> d"
  proof -
    have "\<bar>s / of_nat n - S / of_nat n\<bar> = \<bar>s - S\<bar> / of_nat n"
      by (simp add: diff_divide_distrib [symmetric] abs_divide del: of_nat_Suc)
    also have "\<dots> \<le> of_nat n * d / of_nat n"
      using serr by (rule divide_right_mono) simp
    also have "\<dots> = d" using n0 by simp
    finally show ?thesis .
  qed
  have "\<bar>S / of_nat n\<bar> \<le> 1"
    using Sn n0 by (simp add: abs_divide field_simps)
  with quot d1 have sz: "\<bar>s / of_nat n\<bar> \<le> 2" by linarith
  then have "\<bar>s / of_nat n\<bar> \<le> 2 ^ 1000" by (rule order_trans) simp
  from round64_error [OF this] obtain v where v: "round64 (s / of_nat n) = Fin v"
    and verr: "\<bar>v - s / of_nat n\<bar> \<le> \<bar>s / of_nat n\<bar> / 2 ^ 53 + 1 / 2 ^ 1075" by blast
  have "\<bar>s / of_nat n\<bar> / 2 ^ 53 \<le> 2 / 2 ^ 53"
    using sz by (simp add: divide_right_mono)
  moreover have "(1 :: rat) / 2 ^ 1075 \<le> 1 / 2 ^ 53" by simp
  ultimately have "\<bar>v - s / of_nat n\<bar> \<le> 3 / 2 ^ 53" using verr by linarith
  with quot have "\<bar>v - S / of_nat n\<bar> \<le> d + 3 / 2 ^ 53" by linarith
  also have "d + 3 / 2 ^ 53 = (of_nat n + 5) / 2 ^ 53"
    by (simp add: d_def add_divide_distrib)
  finally have "\<bar>v - S / of_nat n\<bar> \<le> (of_nat n + 5) / 2 ^ 53" .
  moreover have "exact_mean_sentiment es = S / of_nat n"
    by (simp add: exact_mean_sentiment_def S_def xs_def n_def comp_def)
  moreover have "avgSentiment es = Fin v"
    using n0 by (simp add: avgSentiment_def xs_def [symmetric] s len v)
  ultimately show ?thesis by (simp add: n_def)
qed

lemma whole_withinD:
  assumes "whole_within b x"
  shows "x = Fin (of_int (whole_of x))" "\<bar>whole_of x\<bar> \<le> int b"
proof -
  from assms obtain q where q: "x = Fin q" "q = of_int \<lfloor>q\<rfloor>" "\<bar>q\<bar> \<le> of_nat b"
    by (cases x) (simp_all add: whole_within_def)
  from q(1,2) show "x = Fin (of_int (whole_of x))" by (simp add: whole_of_def)
  from q(2,3) have "\<bar>(of_int \<lfloor>q\<rfloor> :: rat)\<bar> \<le> of_int (int b)" by simp
  then have "\<bar>\<lfloor>q\<rfloor>\<bar> \<le> int b"
    by (simp only: of_int_le_iff flip: of_int_abs)
  with q(1) show "\<bar>whole_of x\<bar> \<le> int b" by (simp add: whole_of_def)
qed

lemma foldl_jadd_whole:
  assumes "\<forall>x\<in>set xs. whole_within b x" "\<bar>s\<bar> + int b * int (length xs) < 2 ^ 53"
  shows "foldl jadd (Fin (of_int s)) xs = Fin (of_int (s + sum_list (map whole_of xs)))"
  using assms
proof (induction xs arbitrary: s)
  case Nil
  then show ?case by simp
next
  case (Cons x xs)
  from Cons.prems(1) have w: "whole_within b x" by simp
  note x = whole_withinD [OF w]
  from Cons.prems(2) have p2: "\<bar>s\<bar> + (int b + int b * int (length xs)) < 2 ^ 53"
    by (simp add: algebra_simps)
  have nn: "0 \<le> int b * int (length xs)" by simp
  from p2 x(2) nn have small: "\<bar>s + whole_of x\<bar> < 2 ^ 53"
    and rest: "\<bar>s + whole_of x\<bar> + int b * int (length xs) < 2 ^ 53"
    by linarith+
  have "jadd (Fin (of_int s)) x = jadd (Fin (of_int s)) (Fin (of_int (whole_of x)))"
    using x(1) by simp
  also have "\<dots> = round64 (of_int (s + whole_of x))" by simp
  also have "\<dots> = Fin (of_int (s + whole_of x))"
    using small by (rule round64_of_int)
  finally have step: "jadd (Fin (of_int s)) x = Fin (of_int (s + whole_of x))" .
  from Cons.prems(1) have "\<forall>x\<in>set xs. whole_within b x" by simp
  from Cons.IH [OF this rest] step show ?case by (simp add: add.assoc)
qed

lemma foldl_jadd_whole_perm:
  assumes "mset xs = mset ys" "\<forall>x\<in>set xs. whole_within b x" "b * length xs < 2 ^ 53"
  shows "foldl jadd (Fin 0) xs = foldl jadd (Fin 0) ys"
proof -
  from assms(1) have len: "length ys = length xs" and st: "set ys = set xs"
    by (metis size_mset, metis set_mset_mset)
  from assms(3) have "int (b * length xs) < int (2 ^ 53)" by (simp only: of_nat_less_iff)
  then have bound: "\<bar>0 :: int\<bar> + int b * int (length xs) < 2 ^ 53" by simp
  from assms(1) have "mset (map whole_of xs) = mset (map whole_of ys)" by simp
  then have sum: "sum_list (map whole_of xs) = sum_list (map whole_of ys)"
    by (metis sum_mset_sum_list)
  from foldl_jadd_whole [OF assms(2) bound]
  have "foldl jadd (Fin 0) xs = Fin (of_int (sum_list (map whole_of xs)))" by simp
  moreover from foldl_jadd_whole [of ys b 0] assms(2) bound
  have "foldl jadd (Fin 0) ys = Fin (of_int (sum_list (map whole_of ys)))"
    by (simp add: len st)
  ultimately show ?thesis by (simp add: sum)
qed

lemma avgMood_whole_perm:
  assumes "mset es = mset es'"
    and "\<forall>e\<in>set es. whole_within b (mood_or_3 e)"
    and "b * length es < 2 ^ 53"
  shows "avgMood es = avgMood es'"
proof -
  from assms(1) have len: "length es' = length es"
    by (metis size_mset)
  from assms(1) have pm: "mset (map mood_or_3 es) = mset (map mood_or_3 es')"
    by simp
  from assms(2) have wm: "\<forall>x\<in>set (map mood_or_3 es). whole_within b x"
    by simp
  from assms(3) have bm: "b * length (map mood_or_3 es) < 2 ^ 53"
    by simp
  show ?thesis
    by (simp only: avgMood_def Let_def foldl_jadd_whole_perm [OF pm wm bm] length_map len)
qed

lemma exact_mean_sentiment_perm:
  "mset es = mset es' \<Longrightarrow> exact_mean_sentiment es = exact_mean_sentiment es'"
proof -
  assume p: "mset es = mset es'"
  then have "mset (map (\<lambda>e. value_of (sentiment_or_0 e)) es)
      = mset (map (\<lambda>e. value_of (sentiment_or_0 e)) es')" by simp
  then have "sum_list (map (\<lambda>e. value_of (sentiment_or_0 e)) es)
      = sum_list (map (\<lambda>e. value_of (sentiment_or_0 e)) es')"
    by (metis sum_mset_sum_list)
  moreover from p have "length es = length es'" by (metis size_mset)
  ultimately show ?thesis by (simp add: exact_mean_sentiment_def)
qed

text \<open>
  Away from the threshold the overlay is decided by the exact mean of the sentiments.
\<close>

lemma overlay_decided:
  assumes "\<forall>e\<in>set es. in_unit (sentiment_or_0 e)" "es \<noteq> []" "length es < 2 ^ 26"
    and "(of_nat (length es) + 6) / 2 ^ 53 < \<bar>exact_mean_sentiment es + 1 / 10\<bar>"
  shows "jlt (avgSentiment es) (round64 (- 1 / 10)) \<longleftrightarrow> exact_mean_sentiment es < - 1 / 10"
proof -
  define M where "M = exact_mean_sentiment es"
  define g :: rat where "g = (of_nat (length es) + 5) / 2 ^ 53"
  from avgSentiment_error [OF assms(1-3)] obtain v where v: "avgSentiment es = Fin v"
    and err: "\<bar>v - M\<bar> \<le> g" by (auto simp: M_def g_def)
  define u :: rat where "u = 1 / 2 ^ 53"
  define c0 :: rat where "c0 = - (3602879701896397 / 36028797018963968)"
  have margin: "g + u < \<bar>M + 1 / 10\<bar>"
    using assms(4) by (simp add: g_def M_def u_def add_divide_distrib)
  have c: "\<bar>c0 + 1 / 10\<bar> \<le> u"
    by (simp add: c0_def u_def)
  have "v < c0 \<longleftrightarrow> M < - 1 / 10"
  proof (cases "M < - 1 / 10")
    case True
    with err margin c have "v < c0" by linarith
    with True show ?thesis by simp
  next
    case False
    with err margin c have "\<not> v < c0" by linarith
    with False show ?thesis by simp
  qed
  then show ?thesis by (simp add: v round64_v3 M_def c0_def)
qed

text \<open>
  Claim C10, amended. Take two orders of the same entries whose moods, after the default
  3, are whole numbers of magnitude at most \<open>b\<close>, with \<open>b\<close> times their number below
  \<open>2^53\<close>. Then \<open>generateRecommendations\<close> chooses the same mood tier for both, and the
  two results can differ only in the journaling and sleep items at the end. They are
  equal whenever the sentiments, after the default 0, lie between -1 and 1, the entries
  are fewer than \<open>2^26\<close>, and the exact mean of the sentiments is further than
  \<open>(n + 6) / 2^53\<close> from -0.1 for \<open>n\<close> entries. Closer to -0.1 the binary64 sum taken
  from left to right decides, and it can depend on the order.
\<close>

theorem recommend_permutation_whole_moods:
  assumes "mset es = mset es'"
    and "\<forall>e\<in>set es. whole_within b (mood_or_3 e)"
    and "b * length es < 2 ^ 53"
  shows "(\<exists>tier.
            generateRecommendations (Some es) =
              tier @ (if jlt (avgSentiment es) (round64 (- 1 / 10)) then [r_journal, r_sleep] else []) \<and>
            generateRecommendations (Some es') =
              tier @ (if jlt (avgSentiment es') (round64 (- 1 / 10)) then [r_journal, r_sleep] else [])) \<and>
         ((\<forall>e\<in>set es. in_unit (sentiment_or_0 e)) \<and> length es < 2 ^ 26 \<and>
          (of_nat (length es) + 6) / 2 ^ 53 < \<bar>exact_mean_sentiment es + 1 / 10\<bar> \<longrightarrow>
          generateRecommendations (Some es) = generateRecommendations (Some es'))"
proof (cases "es = []")
  case True
  with assms(1) have "es' = []" by simp
  with True show ?thesis
    by (simp add: generateRecommendations_def avgSentiment_def)
next
  case False
  with assms(1) have ne': "es' \<noteq> []" by auto
  from assms(1) have len: "length es' = length es" by (metis size_mset)
  from assms(1) have st: "set es' = set es" by (metis set_mset_mset)
  note am = avgMood_whole_perm [OF assms]
  let ?tier = "if jle (avgMood es) (Fin (5 / 2)) then [r_ground, r_talk]
      else if jle (avgMood es) (Fin (7 / 2)) then [r_breathe, r_walk2] else [r_keep]"
  have g: "generateRecommendations (Some es) =
      ?tier @ (if jlt (avgSentiment es) (round64 (- 1 / 10)) then [r_journal, r_sleep] else [])"
    using False by (rule generateRecommendations_Some)
  have g': "generateRecommendations (Some es') =
      ?tier @ (if jlt (avgSentiment es') (round64 (- 1 / 10)) then [r_journal, r_sleep] else [])"
    using generateRecommendations_Some [OF ne'] by (simp only: am)
  have "generateRecommendations (Some es) = generateRecommendations (Some es')"
    if u: "\<forall>e\<in>set es. in_unit (sentiment_or_0 e)" and n: "length es < 2 ^ 26"
      and m: "(of_nat (length es) + 6) / 2 ^ 53 < \<bar>exact_mean_sentiment es + 1 / 10\<bar>"
  proof -
    note em = exact_mean_sentiment_perm [OF assms(1)]
    from u st have u': "\<forall>e\<in>set es'. in_unit (sentiment_or_0 e)" by simp
    from n len have n': "length es' < 2 ^ 26" by simp
    from m have m': "(of_nat (length es') + 6) / 2 ^ 53 < \<bar>exact_mean_sentiment es' + 1 / 10\<bar>"
      by (simp only: len em)
    from overlay_decided [OF u False n m] overlay_decided [OF u' ne' n' m']
    have "jlt (avgSentiment es) (round64 (- 1 / 10)) \<longleftrightarrow> jlt (avgSentiment es') (round64 (- 1 / 10))"
      by (simp only: em)
    then show ?thesis by (simp only: g g')
  qed
  with g g' show ?thesis by blast
qed

text \<open>
  Three entries that \<open>handleSubmit\<close> builds, with sentiments -0.5, -0.3 and 0: the mean
  is far below -0.1, and both orders get the middle tier with the overlay.
\<close>

theorem recommend_permutation_whole_moods_witness:
  "mset [handleSubmit ''2024-01-01'' (Fin 3) (str ''sad angry upset lonely tired''),
         handleSubmit ''2024-01-01'' (Fin 3) (str ''sad angry upset''),
         handleSubmit ''2024-01-01'' (Fin 3) []]
   = mset [handleSubmit ''2024-01-01'' (Fin 3) [],
           handleSubmit ''2024-01-01'' (Fin 3) (str ''sad angry upset''),
           handleSubmit ''2024-01-01'' (Fin 3) (str ''sad angry upset lonely tired'')] \<and>
   list_all (\<lambda>e. whole_within 5 (mood_or_3 e) \<and> in_unit (sentiment_or_0 e))
     [handleSubmit ''2024-01-01'' (Fin 3) (str ''sad angry upset lonely tired''),
      handleSubmit ''2024-01-01'' (Fin 3) (str ''sad angry upset''),
      handleSubmit ''2024-01-01'' (Fin 3) []] \<and>
   (3 + 6) / 2 ^ 53
     < \<bar>exact_mean_sentiment
         [handleSubmit ''2024-01-01'' (Fin 3) (str ''sad angry upset lonely tired''),
          handleSubmit ''2024-01-01'' (Fin 3) (str ''sad angry upset''),
          handleSubmit ''2024-01-01'' (Fin 3) []] + 1 / 10\<bar> \<and>
   generateRecommendations
     (Some [handleSubmit ''2024-01-01'' (Fin 3) (str ''sad angry upset lonely tired''),
            handleSubmit ''2024-01-01'' (Fin 3) (str ''sad angry upset''),
            handleSubmit ''2024-01-01'' (Fin 3) []])
     = [r_breathe, r_walk2, r_journal, r_sleep] \<and>
   generateRecommendations
     (Some [handleSubmit ''2024-01-01'' (Fin 3) [],
            handleSubmit ''2024-01-01'' (Fin 3) (str ''sad angry upset''),
            handleSubmit ''2024-01-01'' (Fin 3) (str ''sad angry upset lonely tired'')])
     = [r_breathe, r_walk2, r_journal, r_sleep]"
  (is "mset ?es = mset ?es' \<and> list_all ?P ?es \<and> ?m \<and> ?g \<and> ?g'")
proof -
  note vals = handleSubmit_def sentiment_sad5 sentiment_sad3 sentiment_empty
    mood_or_3_def sentiment_or_0_def
  have p: "mset ?es = mset ?es'" by (simp add: add_mset_commute)
  have w: "list_all ?P ?es"
    by (simp add: vals whole_within_def in_unit_def)
  then have w1: "\<forall>e\<in>set ?es. whole_within 5 (mood_or_3 e)"
    and w2: "\<forall>e\<in>set ?es. in_unit (sentiment_or_0 e)"
    by (simp_all only: list_all_iff) blast+
  have b: "5 * length ?es < 2 ^ 53" by simp
  have n: "length ?es < 2 ^ 26" by simp
  have m: "(of_nat (length ?es) + 6) / 2 ^ 53 < \<bar>exact_mean_sentiment ?es + 1 / 10\<bar>"
    by (simp add: exact_mean_sentiment_def vals value_of_def)
  then have m': ?m by simp
  have g: ?g
    by (simp add: generateRecommendations_Some avgMood_def avgSentiment_def vals round64_values)
  from recommend_permutation_whole_moods [OF p w1 b] w2 n m
  have "generateRecommendations (Some ?es) = generateRecommendations (Some ?es')" by blast
  with g have g': ?g' by simp
  from p w m' g g' show ?thesis by blast
qed

section \<open>Properties of the trend aggregation\<close>

lemma date_group_snoc: "date_group (es @ [e]) d = (if date e = d then date_group es d @ [e] else date_group es d)"
  by (simp add: date_group_def)

lemma date_group_Nil [simp]: "date_group [] d = []"
  by (simp add: date_group_def)

lemma bucket_of_snoc:
  "bucket_of (es @ [e]) d = (if date e = d then update_bucket e (bucket_of es d) else bucket_of es d)"
  by (simp add: bucket_of_def date_group_snoc update_bucket_def sum_mood_def sum_sentiment_def
      split: option.split)

lemma own_keys_snoc:
  "own_keys (es @ [e]) =
     (if date e \<in> set Object_prototype_keys \<or> date e \<in> set (own_keys es) then own_keys es
      else own_keys es @ [date e])"
  by (simp add: own_keys_def)

lemma own_keys_Nil [simp]: "own_keys [] = []"
  by (simp add: own_keys_def)

lemma set_own_keys: "set (own_keys es) = date ` set es - set Object_prototype_keys"
  by (induction es rule: rev_induct) (auto simp: own_keys_snoc)

lemma distinct_own_keys: "distinct (own_keys es)"
  by (induction es rule: rev_induct) (auto simp: own_keys_snoc)

lemma bucket_of_unseen: "d \<notin> date ` set es \<Longrightarrow> bucket_of es d = new_bucket d"
proof -
  assume "d \<notin> date ` set es"
  then have "date_group es d = []" by (auto simp: date_group_def filter_empty_conv)
  then show ?thesis by (simp add: bucket_of_def new_bucket_def sum_mood_def sum_sentiment_def)
qed

lemma map_of_keys: "map_of (map (\<lambda>d. (d, f d)) ks) k = None \<longleftrightarrow> k \<notin> set ks"
  by (induction ks) auto

lemma update_keys:
  "map (\<lambda>(k, b). if k = date e then (k, update_bucket e b) else (k, b))
       (map (\<lambda>d. (d, bucket_of es d)) ks)
   = map (\<lambda>d. (d, bucket_of (es @ [e]) d)) ks"
  by (induction ks) (auto simp: bucket_of_snoc)

lemma dataMap_eq: "foldl add_entry [] es = map (\<lambda>d. (d, bucket_of es d)) (own_keys es)"
proof (induction es rule: rev_induct)
  case Nil
  then show ?case by simp
next
  case (snoc e es)
  let ?dm = "map (\<lambda>d. (d, bucket_of es d)) (own_keys es)"
  have step: "foldl add_entry [] (es @ [e]) = add_entry ?dm e"
    by (simp add: snoc.IH)
  show ?case
  proof (cases "date e \<in> set Object_prototype_keys")
    case True
    have "bucket_of (es @ [e]) d = bucket_of es d" if "d \<in> set (own_keys es)" for d
      using that True by (auto simp: bucket_of_snoc set_own_keys)
    then have "map (\<lambda>d. (d, bucket_of (es @ [e]) d)) (own_keys es) = ?dm"
      by (intro map_cong) simp_all
    moreover from True have "add_entry ?dm e = ?dm"
      by (simp add: add_entry_def Let_def)
    ultimately show ?thesis using True
      by (simp only: step own_keys_snoc if_True simp_thms)
  next
    case notproto: False
    show ?thesis
    proof (cases "date e \<in> set (own_keys es)")
      case True
      with notproto have "add_entry ?dm e =
          map (\<lambda>(k, b). if k = date e then (k, update_bucket e b) else (k, b)) ?dm"
        by (simp add: add_entry_def map_of_keys Let_def del: map_map)
      with True show ?thesis
        by (simp only: step update_keys own_keys_snoc if_True simp_thms)
    next
      case False
      with notproto have unseen: "date e \<notin> date ` set es"
        by (simp add: set_own_keys)
      from False notproto have "add_entry ?dm e =
          map (\<lambda>(k, b). if k = date e then (k, update_bucket e b) else (k, b))
            (?dm @ [(date e, new_bucket (date e))])"
        by (simp add: add_entry_def map_of_keys Let_def del: map_map)
      also have "?dm @ [(date e, new_bucket (date e))]
          = map (\<lambda>d. (d, bucket_of es d)) (own_keys es @ [date e])"
        by (simp add: bucket_of_unseen [OF unseen])
      finally have "add_entry ?dm e = map (\<lambda>d. (d, bucket_of (es @ [e]) d)) (own_keys es @ [date e])"
        by (simp only: update_keys)
      with False notproto show ?thesis
        by (simp only: step own_keys_snoc if_False simp_thms)
    qed
  qed
qed

lemma TrendCharts_data_eq:
  "TrendCharts_data es = sort_by compare_date (map (\<lambda>d. to_point (bucket_of es d)) (own_keys es))"
  by (simp add: TrendCharts_data_def dataMap_eq comp_def)

lemma mset_insert_by: "mset (insert_by cmp x ys) = add_mset x (mset ys)"
  by (induction ys) auto

lemma mset_sort_by: "mset (sort_by cmp xs) = mset xs"
  by (induction xs) (auto simp: sort_by_def mset_insert_by)

lemma set_insert_by: "set (insert_by cmp x ys) = insert x (set ys)"
  by (induction ys) auto

lemma set_sort_by: "set (sort_by cmp xs) = set xs"
  by (induction xs) (auto simp: sort_by_def set_insert_by)

lemma sorted_insert_by:
  "sorted (map tp_date ys) \<Longrightarrow> sorted (map tp_date (insert_by compare_date x ys))"
  by (induction ys) (auto simp: compare_date_def set_insert_by)

lemma sorted_sort_by: "sorted (map tp_date (sort_by compare_date xs))"
  by (induction xs) (simp_all add: sort_by_def sorted_insert_by)

lemma distinct_sort_by:
  "distinct (map tp_date xs) \<Longrightarrow> distinct (map tp_date (sort_by compare_date xs))"
proof -
  assume d: "distinct (map tp_date xs)"
  have "mset (map tp_date (sort_by compare_date xs)) = mset (map tp_date xs)"
    by (simp add: mset_sort_by)
  from mset_eq_imp_distinct_iff [OF this] d show ?thesis by blast
qed

text \<open>
  With pairwise distinct dates the sorted array does not depend on the order in which
  \<open>Object.values\<close> lists the buckets: it is the one arrangement in ascending order.
\<close>

lemma sort_by_order_immaterial:
  assumes "mset xs = mset ys" "distinct (map tp_date xs)"
  shows "sort_by compare_date xs = sort_by compare_date ys"
proof -
  let ?a = "sort_by compare_date xs" and ?b = "sort_by compare_date ys"
  from assms(1) have st: "set xs = set ys" by (rule mset_eq_setD)
  from assms(1) have "mset (map tp_date ys) = mset (map tp_date xs)" by simp
  from mset_eq_imp_distinct_iff [OF this] assms(2) have dy: "distinct (map tp_date ys)" by blast
  have "set (map tp_date ?a) = set (map tp_date ?b)"
    by (simp add: set_sort_by st)
  with sorted_sort_by [of xs] sorted_sort_by [of ys]
    distinct_sort_by [OF assms(2)] distinct_sort_by [OF dy]
  have keys: "map tp_date ?a = map tp_date ?b"
    by (intro sorted_distinct_set_unique)
  from assms(2) have "inj_on tp_date (set xs)" by (simp add: distinct_map)
  then have "inj_on tp_date (set ?a \<union> set ?b)"
    by (simp add: set_sort_by st)
  with keys show ?thesis by (rule map_inj_on)
qed

lemma tp_date_to_point [simp]: "tp_date (to_point b) = b_date b"
  by (simp add: to_point_def)

lemma b_date_bucket_of [simp]: "b_date (bucket_of es d) = d"
  by (simp add: bucket_of_def)

lemma dates_unsorted:
  "map tp_date (map (\<lambda>d. to_point (bucket_of es d)) (own_keys es)) = own_keys es"
  by (simp add: comp_def)

lemma set_TrendCharts_data:
  "set (TrendCharts_data es) = (\<lambda>d. to_point (bucket_of es d)) ` set (own_keys es)"
  by (simp add: TrendCharts_data_eq set_sort_by)

lemma dates_TrendCharts_data:
  "set (map tp_date (TrendCharts_data es)) = date ` set es - set Object_prototype_keys"
  by (simp add: set_TrendCharts_data image_image set_own_keys)

lemma TrendCharts_data_point:
  assumes "p \<in> set (TrendCharts_data es)"
  shows "p = to_point (bucket_of es (tp_date p))" "tp_date p \<in> date ` set es"
    "tp_date p \<notin> set Object_prototype_keys"
proof -
  from assms obtain d where d: "d \<in> set (own_keys es)" "p = to_point (bucket_of es d)"
    by (auto simp: set_TrendCharts_data)
  then have "tp_date p = d" by simp
  with d show "p = to_point (bucket_of es (tp_date p))" "tp_date p \<in> date ` set es"
    "tp_date p \<notin> set Object_prototype_keys"
    by (simp_all add: set_own_keys)
qed

text \<open>
  Claim C8. For every list of entries whose dates are not names that \<open>{}\<close> inherits (no
  date of the form YYYY-MM-DD is), the dates of the points are in non-decreasing
  lexicographic order and pairwise distinct, and they are exactly the dates of the
  entries: one point for each date that occurs, none for any other date. The empty list
  gives the empty sequence.
\<close>

theorem TrendCharts_data_sorted_unique:
  assumes "\<forall>e\<in>set es. date e \<notin> set Object_prototype_keys"
  shows "sorted (map tp_date (TrendCharts_data es)) \<and>
         distinct (map tp_date (TrendCharts_data es)) \<and>
         set (map tp_date (TrendCharts_data es)) = date ` set es \<and>
         TrendCharts_data [] = []"
proof -
  have "sorted (map tp_date (TrendCharts_data es))"
    by (simp only: TrendCharts_data_eq sorted_sort_by)
  moreover have "distinct (map tp_date (TrendCharts_data es))"
    unfolding TrendCharts_data_eq
    by (rule distinct_sort_by) (simp only: dates_unsorted distinct_own_keys)
  moreover from assms have "date ` set es - set Object_prototype_keys = date ` set es"
    by auto
  then have "set (map tp_date (TrendCharts_data es)) = date ` set es"
    by (simp only: dates_TrendCharts_data)
  moreover have "TrendCharts_data [] = []"
    by (simp add: TrendCharts_data_def sort_by_def)
  ultimately show ?thesis by blast
qed

lemma not_inherited_10: "length d = 10 \<Longrightarrow> d \<notin> set Object_prototype_keys"
  by (auto simp: Object_prototype_keys_def)

theorem TrendCharts_data_sorted_unique_witness:
  "list_all (\<lambda>e. date e \<notin> set Object_prototype_keys)
     [handleSubmit ''2024-01-02'' (Fin 1) [], handleSubmit ''2024-01-01'' (Fin 3) [],
      handleSubmit ''2024-01-02'' (Fin 5) []] \<and>
   sorted (map tp_date (TrendCharts_data
     [handleSubmit ''2024-01-02'' (Fin 1) [], handleSubmit ''2024-01-01'' (Fin 3) [],
      handleSubmit ''2024-01-02'' (Fin 5) []])) \<and>
   distinct (map tp_date (TrendCharts_data
     [handleSubmit ''2024-01-02'' (Fin 1) [], handleSubmit ''2024-01-01'' (Fin 3) [],
      handleSubmit ''2024-01-02'' (Fin 5) []])) \<and>
   set (map tp_date (TrendCharts_data
     [handleSubmit ''2024-01-02'' (Fin 1) [], handleSubmit ''2024-01-01'' (Fin 3) [],
      handleSubmit ''2024-01-02'' (Fin 5) []])) = {''2024-01-01'', ''2024-01-02''}"
  (is "list_all ?P ?es \<and> _")
proof -
  have h: "list_all ?P ?es"
    by (simp add: handleSubmit_def not_inherited_10)
  then have "\<forall>e\<in>set ?es. ?P e" by (simp only: list_all_iff)
  from TrendCharts_data_sorted_unique [OF this] h show ?thesis
    by (simp add: handleSubmit_def insert_commute)
qed

lemma floor_rat_divide_numeral:
  "\<lfloor>(numeral a :: rat) / numeral b\<rfloor> = numeral a div numeral b"
  using floor_divide_of_int_eq [of "numeral a" "numeral b", where ?'a = rat] by simp

lemma floor_rat_one_divide_numeral: "\<lfloor>(1 :: rat) / numeral b\<rfloor> = 1 div numeral b"
  using floor_divide_of_int_eq [of 1 "numeral b", where ?'a = rat] by simp

lemma TrendCharts_data_example:
  "TrendCharts_data
     [handleSubmit ''2024-01-01'' (Fin 3) [], handleSubmit ''2024-01-01'' (Fin 5) [],
      handleSubmit ''2024-01-02'' (Fin 1) []]
   = [\<lparr>tp_date = ''2024-01-01'', tp_mood = Fin 4, tp_sentiment = Fin 0\<rparr>,
      \<lparr>tp_date = ''2024-01-02'', tp_mood = Fin 1, tp_sentiment = Fin 0\<rparr>]"
  by (simp add: TrendCharts_data_eq own_keys_def Object_prototype_keys_def bucket_of_def
      date_group_def sum_mood_def sum_sentiment_def handleSubmit_def scoreSentiment_def
      sentiment_or_0_def to_point_def sort_by_def compare_date_def round64_values
      floor_rat_divide_numeral floor_rat_one_divide_numeral)

lemma TrendCharts_data_means:
  assumes "p \<in> set (TrendCharts_data es)"
  shows "tp_mood p = toFixed2 (jdiv (sum_mood (date_group es (tp_date p)))
                        (Fin (of_nat (length (date_group es (tp_date p))))))"
    and "tp_sentiment p = toFixed2 (jdiv (sum_sentiment (date_group es (tp_date p)))
                        (Fin (of_nat (length (date_group es (tp_date p))))))"
proof -
  note p = TrendCharts_data_point(1) [OF assms]
  show "tp_mood p = toFixed2 (jdiv (sum_mood (date_group es (tp_date p)))
                        (Fin (of_nat (length (date_group es (tp_date p))))))"
    by (subst p) (simp add: to_point_def bucket_of_def)
  show "tp_sentiment p = toFixed2 (jdiv (sum_sentiment (date_group es (tp_date p)))
                        (Fin (of_nat (length (date_group es (tp_date p))))))"
    by (subst p) (simp add: to_point_def bucket_of_def)
qed

text \<open>
  What \<open>toFixed2\<close> does to a finite number below \<open>10^21\<close>: it rounds it to two
  decimals, half away from zero, and takes the binary64 value of the decimal.
\<close>

lemma round_half_away_error: "\<bar>of_int (round_half_away x) - x\<bar> \<le> 1 / 2"
proof (cases "x < 0")
  case True
  define k where "k = \<lfloor>- x + 1 / 2\<rfloor>"
  have fl: "of_int k \<le> - x + 1 / 2" "- x + 1 / 2 < of_int k + 1"
    unfolding k_def by linarith+
  from True have "round_half_away x = - k" by (simp add: round_half_away_def k_def)
  then have "of_int (round_half_away x) = - (of_int k :: rat)" by simp
  with fl show ?thesis by linarith
next
  case False
  define k where "k = \<lfloor>x + 1 / 2\<rfloor>"
  have fl: "of_int k \<le> x + 1 / 2" "x + 1 / 2 < of_int k + 1"
    unfolding k_def by linarith+
  from False have "round_half_away x = k" by (simp add: round_half_away_def k_def)
  then have "of_int (round_half_away x) = (of_int k :: rat)" by simp
  with fl show ?thesis by linarith
qed

lemma toFixed2_round_half_away:
  assumes "\<bar>q\<bar> < 10 ^ 21"
  shows "toFixed2 (Fin q) = round64 (of_int (round_half_away (q * 100)) / 100)"
proof (cases "q < 0")
  case True
  then have "q * 100 < 0" "\<bar>q\<bar> * 100 = - (q * 100)" by simp_all
  with True assms show ?thesis by (simp add: round_half_away_def Let_def)
next
  case False
  then have "\<not> q * 100 < 0" "\<bar>q\<bar> * 100 = q * 100" by simp_all
  with False assms show ?thesis by (simp add: round_half_away_def Let_def)
qed

text \<open>
  Claim C9. Entries dated 2024-01-01, 2024-01-01 and 2024-01-02 with moods 3, 5 and 1 give
  exactly two points, 2024-01-01 with mean mood 4 and 2024-01-02 with mean mood 1. In
  general the mean mood of a point is the sum of the moods of its date divided by their
  number, and its mean sentiment the sum of the sentiments, a missing one counting as 0,
  divided by their number, each rounded to two decimals: when the quotient is a finite
  \<open>q\<close> below \<open>10^21\<close>, the point carries the binary64 value of \<open>k / 100\<close>, where
  \<open>k\<close> is \<open>100 * q\<close> rounded to the nearest integer, half away from zero.
\<close>

theorem TrendCharts_data_group_means:
  "TrendCharts_data
     [handleSubmit ''2024-01-01'' (Fin 3) [], handleSubmit ''2024-01-01'' (Fin 5) [],
      handleSubmit ''2024-01-02'' (Fin 1) []]
   = [\<lparr>tp_date = ''2024-01-01'', tp_mood = Fin 4, tp_sentiment = Fin 0\<rparr>,
      \<lparr>tp_date = ''2024-01-02'', tp_mood = Fin 1, tp_sentiment = Fin 0\<rparr>] \<and>
   (\<forall>p\<in>set (TrendCharts_data es).
      tp_mood p = toFixed2 (jdiv (sum_mood (date_group es (tp_date p)))
                     (Fin (of_nat (length (date_group es (tp_date p)))))) \<and>
      tp_sentiment p = toFixed2 (jdiv (sum_sentiment (date_group es (tp_date p)))
                     (Fin (of_nat (length (date_group es (tp_date p)))))) \<and>
      (\<forall>q. \<bar>q\<bar> < 10 ^ 21 \<longrightarrow>
         (jdiv (sum_mood (date_group es (tp_date p)))
              (Fin (of_nat (length (date_group es (tp_date p))))) = Fin q \<longrightarrow>
            tp_mood p = round64 (of_int (round_half_away (q * 100)) / 100)) \<and>
         (jdiv (sum_sentiment (date_group es (tp_date p)))
              (Fin (of_nat (length (date_group es (tp_date p))))) = Fin q \<longrightarrow>
            tp_sentiment p = round64 (of_int (round_half_away (q * 100)) / 100)))) \<and>
   \<bar>of_int (round_half_away x) - x\<bar> \<le> 1 / 2"
proof -
  have "tp_mood p = round64 (of_int (round_half_away (q * 100)) / 100)"
    if "p \<in> set (TrendCharts_data es)" "\<bar>q\<bar> < 10 ^ 21"
      "jdiv (sum_mood (date_group es (tp_date p)))
         (Fin (of_nat (length (date_group es (tp_date p))))) = Fin q" for p q
    using that by (simp only: TrendCharts_data_means(1) toFixed2_round_half_away)
  moreover have "tp_sentiment p = round64 (of_int (round_half_away (q * 100)) / 100)"
    if "p \<in> set (TrendCharts_data es)" "\<bar>q\<bar> < 10 ^ 21"
      "jdiv (sum_sentiment (date_group es (tp_date p)))
         (Fin (of_nat (length (date_group es (tp_date p))))) = Fin q" for p q
    using that by (simp only: TrendCharts_data_means(2) toFixed2_round_half_away)
  ultimately show ?thesis
    using TrendCharts_data_example TrendCharts_data_means round_half_away_error by blast
qed

text \<open>
  The general part where rounding shows: three entries of one date with moods 1, 2 and 2
  have the quotient 1.6666666666666667, which times 100 rounds to 167, and the point
  carries the binary64 value of 1.67.
\<close>

theorem TrendCharts_data_group_means_witness:
  "TrendCharts_data
     [handleSubmit ''2024-01-01'' (Fin 1) [], handleSubmit ''2024-01-01'' (Fin 2) [],
      handleSubmit ''2024-01-01'' (Fin 2) []]
   = [\<lparr>tp_date = ''2024-01-01'', tp_mood = Fin (940126422213591 / 562949953421312),
        tp_sentiment = Fin 0\<rparr>] \<and>
   jdiv (sum_mood (date_group
           [handleSubmit ''2024-01-01'' (Fin 1) [], handleSubmit ''2024-01-01'' (Fin 2) [],
            handleSubmit ''2024-01-01'' (Fin 2) []] ''2024-01-01''))
     (Fin 3) = Fin (7505999378950827 / 4503599627370496) \<and>
   round_half_away (7505999378950827 / 4503599627370496 * 100) = 167 \<and>
   Fin (940126422213591 / 562949953421312)
     = round64 (of_int (round_half_away (7505999378950827 / 4503599627370496 * 100)) / 100) \<and>
   Fin (940126422213591 / 562949953421312) = round64 (167 / 100)"
proof -
  let ?es = "[handleSubmit ''2024-01-01'' (Fin 1) [], handleSubmit ''2024-01-01'' (Fin 2) [],
      handleSubmit ''2024-01-01'' (Fin 2) []]"
  let ?p = "\<lparr>tp_date = ''2024-01-01'', tp_mood = Fin (940126422213591 / 562949953421312),
      tp_sentiment = Fin 0\<rparr>"
  let ?q = "7505999378950827 / 4503599627370496 :: rat"
  have d: "TrendCharts_data ?es = [?p]"
    by (simp add: TrendCharts_data_eq own_keys_def Object_prototype_keys_def bucket_of_def
        date_group_def sum_mood_def sum_sentiment_def handleSubmit_def scoreSentiment_def
        sentiment_or_0_def to_point_def sort_by_def compare_date_def round64_values
        floor_rat_divide_numeral floor_rat_one_divide_numeral)
  then have mem: "?p \<in> set (TrendCharts_data ?es)" by simp
  have g: "date_group ?es ''2024-01-01'' = ?es"
    by (simp add: date_group_def handleSubmit_def)
  have q: "jdiv (sum_mood (date_group ?es ''2024-01-01'')) (Fin 3) = Fin ?q"
    by (simp add: g) (simp add: sum_mood_def handleSubmit_def round64_values)
  then have q': "jdiv (sum_mood (date_group ?es (tp_date ?p)))
      (Fin (of_nat (length (date_group ?es (tp_date ?p))))) = Fin ?q"
    by (simp add: g)
  have small: "\<bar>?q\<bar> < 10 ^ 21" by simp
  from TrendCharts_data_group_means [of ?es] mem small q'
  have r: "tp_mood ?p = round64 (of_int (round_half_away (?q * 100)) / 100)"
    by blast
  have k: "round_half_away (?q * 100) = 167"
    by (simp add: round_half_away_def floor_rat_divide_numeral)
  from r have r': "Fin (940126422213591 / 562949953421312)
      = round64 (of_int (round_half_away (?q * 100)) / 100)" by simp
  with k have "Fin (940126422213591 / 562949953421312) = round64 (167 / 100)" by simp
  with d q k r' show ?thesis by blast
qed

lemma round64_not_NaN [simp]: "round64 x \<noteq> NaN"
  by (simp add: round64_def Let_def)

lemma jadd_finite_not_NaN: "a \<noteq> NaN \<Longrightarrow> isFinite b \<Longrightarrow> jadd a b \<noteq> NaN"
  by (cases a; cases b) (simp_all add: isFinite_def)

lemma jdiv_pos_not_NaN: "a \<noteq> NaN \<Longrightarrow> 0 < n \<Longrightarrow> jdiv a (Fin (of_nat n)) \<noteq> NaN"
  by (cases a) simp_all

lemma toFixed2_not_NaN: "a \<noteq> NaN \<Longrightarrow> toFixed2 a \<noteq> NaN"
  by (cases a) (simp_all add: Let_def)

lemma sum_sentiment_not_NaN:
  assumes "\<forall>e\<in>set g. isFinite (sentiment_or_0 e)"
  shows "sum_sentiment g \<noteq> NaN"
proof -
  have "a \<noteq> NaN \<Longrightarrow> \<forall>e\<in>set g. isFinite (sentiment_or_0 e)
      \<Longrightarrow> foldl (\<lambda>s e. jadd s (sentiment_or_0 e)) a g \<noteq> NaN" for a
    by (induction g arbitrary: a) (simp_all add: jadd_finite_not_NaN)
  with assms show ?thesis by (simp add: sum_sentiment_def)
qed

lemma sum_mood_not_NaN:
  assumes "\<forall>e\<in>set g. \<exists>m. mood e = Some m \<and> isFinite m"
  shows "sum_mood g \<noteq> NaN"
proof -
  have "a \<noteq> NaN \<Longrightarrow> \<forall>e\<in>set g. \<exists>m. mood e = Some m \<and> isFinite m
      \<Longrightarrow> foldl (\<lambda>s e. case mood e of None \<Rightarrow> NaN | Some m \<Rightarrow> jadd s m) a g \<noteq> NaN" for a
  proof (induction g arbitrary: a)
    case Nil
    then show ?case by simp
  next
    case (Cons e g)
    from Cons.prems(2) obtain m where m: "mood e = Some m" "isFinite m" by auto
    with Cons.prems(1) have "jadd a m \<noteq> NaN" by (simp add: jadd_finite_not_NaN)
    with Cons.IH [of "jadd a m"] Cons.prems(2) m show ?case by simp
  qed
  with assms show ?thesis by (simp add: sum_mood_def)
qed

lemma update_bucket_sentiment_default:
  "sentiment e = None \<Longrightarrow> update_bucket (e\<lparr>sentiment := Some (Fin 0)\<rparr>) = update_bucket e"
  by (rule ext) (simp add: update_bucket_def sentiment_or_0_def)

lemma add_entry_sentiment_default:
  "add_entry dm (if sentiment e = None then e\<lparr>sentiment := Some (Fin 0)\<rparr> else e) = add_entry dm e"
  by (simp add: add_entry_def update_bucket_sentiment_default Let_def cong: if_cong)

lemma TrendCharts_data_sentiment_default:
  "TrendCharts_data (map (\<lambda>e. if sentiment e = None then e\<lparr>sentiment := Some (Fin 0)\<rparr> else e) es)
     = TrendCharts_data es"
proof -
  have "foldl add_entry dm (map (\<lambda>e. if sentiment e = None then e\<lparr>sentiment := Some (Fin 0)\<rparr> else e) es)
      = foldl add_entry dm es" for dm
    by (induction es arbitrary: dm) (simp_all only: list.map foldl.simps add_entry_sentiment_default)
  then show ?thesis by (simp only: TrendCharts_data_def)
qed

text \<open>
  Claim C3 as stated fails: an entry without a mood makes \<open>moodSum\<close> NaN, and the mean
  mood of its date is NaN, while its missing sentiment counts as 0.
\<close>

theorem TrendCharts_data_missing_mood_counterexample:
  "TrendCharts_data [\<lparr>date = ''2024-01-01'', mood = None, note_text = [], sentiment = None\<rparr>]
     = [\<lparr>tp_date = ''2024-01-01'', tp_mood = NaN, tp_sentiment = Fin 0\<rparr>]"
  by (simp add: TrendCharts_data_eq own_keys_def Object_prototype_keys_def bucket_of_def
      date_group_def sum_mood_def sum_sentiment_def sentiment_or_0_def to_point_def sort_by_def
      floor_rat_divide_numeral floor_rat_one_divide_numeral)

text \<open>
  Claim C3, amended. For every list of entries with dates that \<open>{}\<close> does not inherit
  and with finite moods and sentiments where present, \<open>TrendCharts_data\<close> returns one
  point per distinct date; a missing sentiment counts as 0 (putting 0 in its place changes
  nothing), every mean sentiment is a number, and the mean mood of a date is a number
  when every entry of that date has a mood.
\<close>

theorem TrendCharts_data_missing_fields:
  assumes "\<forall>e\<in>set es. date e \<notin> set Object_prototype_keys"
    and "\<forall>e\<in>set es. (case mood e of None \<Rightarrow> True | Some m \<Rightarrow> isFinite m) \<and>
                     (case sentiment e of None \<Rightarrow> True | Some s \<Rightarrow> isFinite s)"
  shows "distinct (map tp_date (TrendCharts_data es)) \<and>
         set (map tp_date (TrendCharts_data es)) = date ` set es \<and>
         TrendCharts_data (map (\<lambda>e. if sentiment e = None then e\<lparr>sentiment := Some (Fin 0)\<rparr> else e) es)
           = TrendCharts_data es \<and>
         (\<forall>p\<in>set (TrendCharts_data es).
            tp_sentiment p \<noteq> NaN \<and>
            ((\<forall>e\<in>set (date_group es (tp_date p)). mood e \<noteq> None) \<longrightarrow> tp_mood p \<noteq> NaN))"
proof -
  have d: "distinct (map tp_date (TrendCharts_data es))"
    unfolding TrendCharts_data_eq
    by (rule distinct_sort_by) (simp only: dates_unsorted distinct_own_keys)
  from assms(1) have "date ` set es - set Object_prototype_keys = date ` set es"
    by auto
  then have s: "set (map tp_date (TrendCharts_data es)) = date ` set es"
    by (simp only: dates_TrendCharts_data)
  have fm: "isFinite m" if "e \<in> set es" "mood e = Some m" for e m
    using assms(2) that by fastforce
  have fs: "isFinite s" if "e \<in> set es" "sentiment e = Some s" for e s
    using assms(2) that by fastforce
  have pt: "tp_sentiment p \<noteq> NaN \<and>
      ((\<forall>e\<in>set (date_group es (tp_date p)). mood e \<noteq> None) \<longrightarrow> tp_mood p \<noteq> NaN)"
    if p: "p \<in> set (TrendCharts_data es)" for p
  proof -
    let ?g = "date_group es (tp_date p)"
    from TrendCharts_data_point(2) [OF p] have len: "0 < length ?g"
      by (auto simp: date_group_def filter_empty_conv)
    have sub: "set ?g \<subseteq> set es" by (auto simp: date_group_def)
    have "isFinite (sentiment_or_0 e)" if "e \<in> set ?g" for e
    proof (cases "sentiment e")
      case None
      then show ?thesis by (simp add: sentiment_or_0_def isFinite_def)
    next
      case (Some s)
      with fs [of e s] sub that show ?thesis by (auto simp: sentiment_or_0_def)
    qed
    then have "\<forall>e\<in>set ?g. isFinite (sentiment_or_0 e)" by blast
    then have "sum_sentiment ?g \<noteq> NaN" by (rule sum_sentiment_not_NaN)
    then have a: "tp_sentiment p \<noteq> NaN"
      by (simp only: TrendCharts_data_means(2) [OF p] jdiv_pos_not_NaN [OF _ len] toFixed2_not_NaN
          not_False_eq_True)
    have b: "tp_mood p \<noteq> NaN" if all: "\<forall>e\<in>set ?g. mood e \<noteq> None"
    proof -
      have "\<exists>m. mood e = Some m \<and> isFinite m" if "e \<in> set ?g" for e
      proof -
        from all that obtain m where "mood e = Some m" by auto
        with fm [of e m] sub that show ?thesis by auto
      qed
      then have "\<forall>e\<in>set ?g. \<exists>m. mood e = Some m \<and> isFinite m" by blast
      then have "sum_mood ?g \<noteq> NaN" by (rule sum_mood_not_NaN)
      then show ?thesis
        by (simp only: TrendCharts_data_means(1) [OF p] jdiv_pos_not_NaN [OF _ len] toFixed2_not_NaN
            not_False_eq_True)
    qed
    from a b show ?thesis by blast
  qed
  from d s TrendCharts_data_sentiment_default pt show ?thesis by blast
qed

text \<open>
  An entry without a sentiment on one date and an entry without a mood on another: both
  dates get a point and both mean sentiments are numbers.
\<close>

theorem TrendCharts_data_missing_fields_witness:
  "list_all (\<lambda>e. date e \<notin> set Object_prototype_keys)
     [\<lparr>date = ''2024-01-01'', mood = Some (Fin 4), note_text = [], sentiment = None\<rparr>,
      \<lparr>date = ''2024-01-02'', mood = None, note_text = [], sentiment = Some (Fin (1 / 2))\<rparr>] \<and>
   list_all (\<lambda>e. (case mood e of None \<Rightarrow> True | Some m \<Rightarrow> isFinite m) \<and>
                  (case sentiment e of None \<Rightarrow> True | Some s \<Rightarrow> isFinite s))
     [\<lparr>date = ''2024-01-01'', mood = Some (Fin 4), note_text = [], sentiment = None\<rparr>,
      \<lparr>date = ''2024-01-02'', mood = None, note_text = [], sentiment = Some (Fin (1 / 2))\<rparr>] \<and>
   set (map tp_date (TrendCharts_data
     [\<lparr>date = ''2024-01-01'', mood = Some (Fin 4), note_text = [], sentiment = None\<rparr>,
      \<lparr>date = ''2024-01-02'', mood = None, note_text = [], sentiment = Some (Fin (1 / 2))\<rparr>]))
     = {''2024-01-01'', ''2024-01-02''} \<and>
   list_all (\<lambda>p. tp_sentiment p \<noteq> NaN) (TrendCharts_data
     [\<lparr>date = ''2024-01-01'', mood = Some (Fin 4), note_text = [], sentiment = None\<rparr>,
      \<lparr>date = ''2024-01-02'', mood = None, note_text = [], sentiment = Some (Fin (1 / 2))\<rparr>]) \<and>
   TrendCharts_data
     [\<lparr>date = ''2024-01-01'', mood = Some (Fin 4), note_text = [], sentiment = None\<rparr>,
      \<lparr>date = ''2024-01-02'', mood = None, note_text = [], sentiment = Some (Fin (1 / 2))\<rparr>]
     = [\<lparr>tp_date = ''2024-01-01'', tp_mood = Fin 4, tp_sentiment = Fin 0\<rparr>,
        \<lparr>tp_date = ''2024-01-02'', tp_mood = NaN, tp_sentiment = Fin (1 / 2)\<rparr>]"
  (is "list_all ?P ?es \<and> list_all ?Q ?es \<and> _")
proof -
  have h1: "list_all ?P ?es" by (simp add: not_inherited_10)
  have h2: "list_all ?Q ?es" by (simp add: isFinite_def)
  from h1 have a1: "\<forall>e\<in>set ?es. ?P e" by (simp only: list_all_iff)
  from h2 have a2: "\<forall>e\<in>set ?es. ?Q e" by (simp only: list_all_iff)
  note r = TrendCharts_data_missing_fields [OF a1 a2]
  from r have s: "set (map tp_date (TrendCharts_data ?es)) = date ` set ?es" by blast
  from r have "\<forall>p\<in>set (TrendCharts_data ?es). tp_sentiment p \<noteq> NaN" by blast
  then have n: "list_all (\<lambda>p. tp_sentiment p \<noteq> NaN) (TrendCharts_data ?es)"
    by (simp only: list_all_iff)
  from s have "set (map tp_date (TrendCharts_data ?es)) = {''2024-01-01'', ''2024-01-02''}"
    by simp
  moreover have "TrendCharts_data ?es
      = [\<lparr>tp_date = ''2024-01-01'', tp_mood = Fin 4, tp_sentiment = Fin 0\<rparr>,
         \<lparr>tp_date = ''2024-01-02'', tp_mood = NaN, tp_sentiment = Fin (1 / 2)\<rparr>]"
    by (simp add: TrendCharts_data_eq own_keys_def Object_prototype_keys_def bucket_of_def
        date_group_def sum_mood_def sum_sentiment_def sentiment_or_0_def to_point_def sort_by_def
        compare_date_def round64_values floor_rat_divide_numeral floor_rat_one_divide_numeral)
  ultimately show ?thesis using h1 h2 n by blast
qed

end
